theory Spec2Isabelle
  imports Main "HOL-Library.AList"
begin

section \<open>Python values, errors and the input records\<close>

text \<open>
  The solver entry point \<^verbatim>\<open>generate_schedule_from_inputs\<close> of
  \<^verbatim>\<open>backend/solver/constraint_builder.py\<close> receives lists of dictionaries. The
  identifiers stored in them are integers (database ids), strings (slot ids) or \<^verbatim>\<open>None\<close>
  (\<^verbatim>\<open>d.get("id")\<close> on a dictionary without that key). Equality on \<open>pyval\<close> is
  Python's \<^verbatim>\<open>==\<close> on these three kinds of value.
\<close>

datatype pyval = PNone | PInt int | PStr string

text \<open>The two exceptions the function can raise on the inputs modelled here.\<close>

datatype error = KeyError | TypeError

text \<open>
  A dictionary is a record whose fields are options: \<open>None\<close> is an absent key.
  For the fields read with \<^verbatim>\<open>d.get(k) or []\<close> an absent key and a \<^verbatim>\<open>None\<close> value
  behave alike, and \<open>None\<close> stands for both. The field types are those of the
  repository's schemas (\<^verbatim>\<open>backend/schemas/pydantic_schemas.py\<close>). A key that is
  present with the value \<^verbatim>\<open>None\<close> where the schema has a number or a list read without
  \<^verbatim>\<open>or []\<close> (\<^verbatim>\<open>capacity\<close>, \<^verbatim>\<open>student_count\<close>, \<^verbatim>\<open>duration\<close>,
  \<^verbatim>\<open>preferred_slots\<close>) is not represented: the source raises \<^verbatim>\<open>TypeError\<close> when
  it first uses such a value (lines 130, 151 and 204).
\<close>

record faculty =
  fid :: "pyval option"
  available_slots :: "pyval list option"
  available_days :: "pyval list option"
  no_consecutive_slots :: "bool option"
  preferred_slots :: "pyval list option"

record room =
  rid :: "pyval option"
  capacity :: "int option"
  room_affinity :: "pyval list option"

record subject =
  sid :: "pyval option"
  subject_type :: "string option"
  duration :: "int option"
  requires_continuous_slots :: "bool option"

record batch =
  bid :: "pyval option"
  branch_id :: "pyval option"
  track_code :: "pyval option"
  student_count :: "int option"

record timeslot =
  tid :: "pyval option"

text \<open>An entry of \<^verbatim>\<open>payload_overrides["fixed_assignments"]\<close>.\<close>

record fixed_assignment =
  fix_subject_id :: "pyval option"
  fix_batch_id :: "pyval option"
  fix_slot :: "pyval option"
  fix_room_id :: "pyval option"
  fix_faculty_id :: "pyval option"

text \<open>
  The arguments of one call. \<open>None\<close> for a list is Python's \<^verbatim>\<open>None\<close>;
  \<open>fixed_assignments = None\<close> is an overrides dictionary without that key. The time budget
  \<^verbatim>\<open>max_time_s\<close> is converted by \<^verbatim>\<open>float\<close> (line 218) and passed to the backend
  only; it is not part of the model. The calls represented are those whose overrides leave
  the budget at its default or give a number, where the conversion does not raise.
\<close>

record inputs =
  faculty_list :: "faculty list option"
  room_list :: "room list option"
  subject_list :: "subject list option"
  batch_list :: "batch list option"
  timeslot_list :: "timeslot list option"
  fixed_assignments :: "fixed_assignment list option"

text \<open>\<^verbatim>\<open>d.get(k, default)\<close> on an optional field.\<close>

definition get_or :: "'a option \<Rightarrow> 'a \<Rightarrow> 'a" where
  "get_or field dflt = (case field of None \<Rightarrow> dflt | Some v \<Rightarrow> v)"

text \<open>\<^verbatim>\<open>d.get("id")\<close>: \<^verbatim>\<open>None\<close> when the key is absent.\<close>

definition fac_id :: "faculty \<Rightarrow> pyval" where
  "fac_id fac = get_or (fid fac) PNone"

definition room_id_of :: "room \<Rightarrow> pyval" where
  "room_id_of r = get_or (rid r) PNone"

definition sub_id :: "subject \<Rightarrow> pyval" where
  "sub_id sub = get_or (sid sub) PNone"

definition batch_id_of :: "batch \<Rightarrow> pyval" where
  "batch_id_of b = get_or (bid b) PNone"

section \<open>The entity indices (lines 6-7 and 32-41)\<close>

text \<open>
  \<^verbatim>\<open>{item[key_field]: item for item in items}\<close>: \<^verbatim>\<open>item["id"]\<close> raises
  \<^verbatim>\<open>KeyError\<close> on an item without the key; a later item with an id already present
  replaces the earlier one (\<open>AList.update\<close> keeps the position of the key, as a Python
  dictionary does).
\<close>

fun index_into :: "('a \<Rightarrow> pyval option) \<Rightarrow> 'a list \<Rightarrow> (pyval \<times> 'a) list \<Rightarrow> error + (pyval \<times> 'a) list" where
  "index_into key_field [] d = Inr d"
| "index_into key_field (item # items) d =
     (case key_field item of
        None \<Rightarrow> Inl KeyError
      | Some k \<Rightarrow> index_into key_field items (AList.update k item d))"

definition index_objects :: "('a \<Rightarrow> pyval option) \<Rightarrow> 'a list \<Rightarrow> error + (pyval \<times> 'a) list" where
  "index_objects key_field items = index_into key_field items []"

text \<open>\<^verbatim>\<open>_index_objects(xs, "id") if xs else {}\<close>: an empty or \<^verbatim>\<open>None\<close> list gives the empty index.\<close>

definition index_if_given :: "('a \<Rightarrow> pyval option) \<Rightarrow> 'a list option \<Rightarrow> error + (pyval \<times> 'a) list" where
  "index_if_given key_field xs =
     (case xs of None \<Rightarrow> Inr [] | Some items \<Rightarrow> index_objects key_field items)"

text \<open>\<^verbatim>\<open>[ts["id"] for ts in timeslot_list]\<close>.\<close>

fun slot_ids :: "timeslot list \<Rightarrow> error + pyval list" where
  "slot_ids [] = Inr []"
| "slot_ids (ts # rest) =
     (case tid ts of
        None \<Rightarrow> Inl KeyError
      | Some s \<Rightarrow> (case slot_ids rest of Inl e \<Rightarrow> Inl e | Inr ss \<Rightarrow> Inr (s # ss)))"

text \<open>\<^verbatim>\<open>[f"slot_{i}" for i in range(1,9)]\<close>.\<close>

definition fallback_slots :: "pyval list" where
  "fallback_slots =
     [PStr ''slot_1'', PStr ''slot_2'', PStr ''slot_3'', PStr ''slot_4'',
      PStr ''slot_5'', PStr ''slot_6'', PStr ''slot_7'', PStr ''slot_8'']"

text \<open>Lines 37-41: the ids of the supplied slots, or the fallback when there are none.\<close>

definition timeslot_ids_of :: "timeslot list option \<Rightarrow> error + pyval list" where
  "timeslot_ids_of tsl =
     (case (case tsl of None \<Rightarrow> Inr [] | Some l \<Rightarrow> slot_ids l) of
        Inl e \<Rightarrow> Inl e
      | Inr ids \<Rightarrow> Inr (if ids = [] then fallback_slots else ids))"

text \<open>
  Lines 33-41 in order. The four indices are built only for their exceptions: nothing
  below reads them. The value returned is \<^verbatim>\<open>timeslot_ids\<close>.
\<close>

definition entity_catalog :: "inputs \<Rightarrow> error + pyval list" where
  "entity_catalog inp =
     (case index_if_given fid (faculty_list inp) of Inl e \<Rightarrow> Inl e | Inr faculty_idx \<Rightarrow>
      case index_if_given rid (room_list inp) of Inl e \<Rightarrow> Inl e | Inr room_idx \<Rightarrow>
      case index_if_given sid (subject_list inp) of Inl e \<Rightarrow> Inl e | Inr subject_idx \<Rightarrow>
      case index_if_given bid (batch_list inp) of Inl e \<Rightarrow> Inl e | Inr batch_idx \<Rightarrow>
      timeslot_ids_of (timeslot_list inp))"

section \<open>The constraint model\<close>

text \<open>
  A decision variable is its index in the backend's model, in creation order. The
  dictionary \<^verbatim>\<open>assign\<close> maps a tuple (subject, batch, slot, room, faculty) to a variable.
\<close>

type_synonym key = "pyval \<times> pyval \<times> pyval \<times> pyval \<times> pyval"

type_synonym assign_map = "(key \<times> nat) list"

text \<open>
  The four shapes of constraint the builder adds:
  \<^verbatim>\<open>sum(to_sum) <= 1\<close>, \<^verbatim>\<open>v == 0\<close>, \<^verbatim>\<open>v == 1\<close> and \<^verbatim>\<open>v_first <= v_succ\<close>.
\<close>

datatype constr = SumLe1 "nat list" | EqZero nat | EqOne nat | Le nat nat

record cp_model =
  num_vars :: nat
  constraints :: "constr list"
  objective :: "(nat \<times> int) list"

subsection \<open>Decision variables (lines 47-60)\<close>

text \<open>The tuples in the order of the five nested loops.\<close>

definition candidate_keys ::
  "faculty list \<Rightarrow> room list \<Rightarrow> subject list \<Rightarrow> batch list \<Rightarrow> pyval list \<Rightarrow> key list" where
  "candidate_keys facs rooms subs bats slots =
     [(sub_id sub, batch_id_of b, sl, room_id_of r, fac_id fac).
        sub \<leftarrow> subs, b \<leftarrow> bats, sl \<leftarrow> slots, r \<leftarrow> rooms, fac \<leftarrow> facs]"

text \<open>
  \<^verbatim>\<open>assign[key] = model.NewBoolVar(name)\<close>: every pass creates a fresh variable; a tuple met
  again (duplicate ids in a list) is rebound to the new variable.
\<close>

fun create_vars :: "key list \<Rightarrow> assign_map \<Rightarrow> nat \<Rightarrow> assign_map \<times> nat" where
  "create_vars [] assign n = (assign, n)"
| "create_vars (k # ks) assign n = create_vars ks (AList.update k n assign) (Suc n)"

text \<open>
  \<^verbatim>\<open>v = assign.get(key)\<close> followed by \<^verbatim>\<open>if v is not None: ... append(v)\<close>, over a
  list of keys.
\<close>

definition lookup_vars :: "assign_map \<Rightarrow> key list \<Rightarrow> nat list" where
  "lookup_vars assign ks = List.map_filter (map_of assign) ks"

subsection \<open>Hard constraints 1-3: exclusivity (lines 64-106)\<close>

definition sum_le1 :: "nat list \<Rightarrow> constr list" where
  "sum_le1 to_sum = (if to_sum \<noteq> [] then [SumLe1 to_sum] else [])"

definition batch_exclusivity ::
  "assign_map \<Rightarrow> faculty list \<Rightarrow> room list \<Rightarrow> subject list \<Rightarrow> batch list \<Rightarrow> pyval list \<Rightarrow> constr list" where
  "batch_exclusivity assign facs rooms subs bats slots =
     concat [sum_le1 (lookup_vars assign
               [(sub_id sub, batch_id_of b, sl, room_id_of r, fac_id fac).
                  sub \<leftarrow> subs, r \<leftarrow> rooms, fac \<leftarrow> facs]).
             b \<leftarrow> bats, sl \<leftarrow> slots]"

definition faculty_exclusivity ::
  "assign_map \<Rightarrow> faculty list \<Rightarrow> room list \<Rightarrow> subject list \<Rightarrow> batch list \<Rightarrow> pyval list \<Rightarrow> constr list" where
  "faculty_exclusivity assign facs rooms subs bats slots =
     concat [sum_le1 (lookup_vars assign
               [(sub_id sub, batch_id_of b, sl, room_id_of r, fac_id fac).
                  sub \<leftarrow> subs, b \<leftarrow> bats, r \<leftarrow> rooms]).
             fac \<leftarrow> facs, sl \<leftarrow> slots]"

definition room_exclusivity ::
  "assign_map \<Rightarrow> faculty list \<Rightarrow> room list \<Rightarrow> subject list \<Rightarrow> batch list \<Rightarrow> pyval list \<Rightarrow> constr list" where
  "room_exclusivity assign facs rooms subs bats slots =
     concat [sum_le1 (lookup_vars assign
               [(sub_id sub, batch_id_of b, sl, room_id_of r, fac_id fac).
                  sub \<leftarrow> subs, b \<leftarrow> bats, fac \<leftarrow> facs]).
             r \<leftarrow> rooms, sl \<leftarrow> slots]"

subsection \<open>Hard constraint 4: faculty availability (lines 109-122)\<close>

text \<open>
  \<^verbatim>\<open>available_days\<close> and \<^verbatim>\<open>no_consec\<close> are bound as in the source and not used.
\<close>

definition faculty_availability ::
  "assign_map \<Rightarrow> faculty list \<Rightarrow> room list \<Rightarrow> subject list \<Rightarrow> batch list \<Rightarrow> pyval list \<Rightarrow> constr list" where
  "faculty_availability assign facs rooms subs bats slots =
     concat [(let avail = get_or (available_slots fac) [];
                  avail_days = get_or (available_days fac) [];
                  no_consec = get_or (no_consecutive_slots fac) False
              in concat [(if avail \<noteq> [] \<and> sl \<notin> set avail
                          then map EqZero (lookup_vars assign
                                 [(sub_id sub, batch_id_of b, sl, room_id_of r, fac_id fac). r \<leftarrow> rooms])
                          else []).
                         sub \<leftarrow> subs, b \<leftarrow> bats, sl \<leftarrow> slots]).
             fac \<leftarrow> facs]"

subsection \<open>Hard constraint 5: room capacity (lines 125-135)\<close>

definition room_capacity ::
  "assign_map \<Rightarrow> faculty list \<Rightarrow> room list \<Rightarrow> subject list \<Rightarrow> batch list \<Rightarrow> pyval list \<Rightarrow> constr list" where
  "room_capacity assign facs rooms subs bats slots =
     concat [(if get_or (student_count b) 0 > get_or (capacity r) 9999
              then map EqZero (lookup_vars assign
                     [(sub_id sub, batch_id_of b, sl, room_id_of r, fac_id fac).
                        sl \<leftarrow> slots, fac \<leftarrow> facs])
              else []).
             r \<leftarrow> rooms, sub \<leftarrow> subs, b \<leftarrow> bats]"

subsection \<open>Hard constraint 6: lab continuity (lines 140-180)\<close>

text \<open>
  \<^verbatim>\<open>{s: i for i, s in enumerate(timeslot_ids)}\<close>: a slot id that occurs twice keeps its
  last position.
\<close>

definition slot_index :: "pyval list \<Rightarrow> pyval \<Rightarrow> nat option" where
  "slot_index slots = map_of (rev (zip slots [0..<length slots]))"

text \<open>
  The loop over \<^verbatim>\<open>offset in range(required)\<close>: \<open>None\<close> is \<^verbatim>\<open>ok = False\<close> (the run
  leaves the slot list), \<open>Some\<close> carries \<^verbatim>\<open>consec_slots\<close>.
\<close>

fun collect_consec :: "pyval list \<Rightarrow> nat \<Rightarrow> nat list \<Rightarrow> pyval list option" where
  "collect_consec slots si [] = Some []"
| "collect_consec slots si (offset # rest) =
     (let idx = si + offset
      in if idx \<ge> length slots then None
         else (case collect_consec slots si rest of
                 None \<Rightarrow> None
               | Some later \<Rightarrow> Some (slots ! idx # later)))"

text \<open>\<^verbatim>\<open>sub.get("subject_type") == "lab" or sub.get("requires_continuous_slots")\<close>.\<close>

definition needs_continuity :: "subject \<Rightarrow> bool" where
  "needs_continuity sub = (subject_type sub = Some ''lab'' \<or> get_or (requires_continuous_slots sub) False)"

text \<open>
  The body of the loop over \<^verbatim>\<open>start_slot\<close> for one subject and batch.
  \<^verbatim>\<open>slot_index[start_slot]\<close> cannot miss, since \<^verbatim>\<open>start_slot\<close> ranges over the list the
  index was built from (lemma \<open>slot_index_defined\<close>).
\<close>

definition continuity_at ::
  "assign_map \<Rightarrow> faculty list \<Rightarrow> room list \<Rightarrow> pyval list \<Rightarrow> subject \<Rightarrow> batch \<Rightarrow> pyval \<Rightarrow> constr list" where
  "continuity_at assign facs rooms slots sub b start_slot =
     (case slot_index slots start_slot of
        None \<Rightarrow> []
      | Some si \<Rightarrow>
          (case collect_consec slots si [0..<nat (get_or (duration sub) 2)] of
             None \<Rightarrow>
               map EqZero (lookup_vars assign
                 [(sub_id sub, batch_id_of b, start_slot, room_id_of r, fac_id fac).
                    r \<leftarrow> rooms, fac \<leftarrow> facs])
           | Some consec_slots \<Rightarrow>
               concat [(case map_of assign (sub_id sub, batch_id_of b, start_slot, room_id_of r, fac_id fac) of
                          None \<Rightarrow> []
                        | Some v_first \<Rightarrow>
                            map (Le v_first) (lookup_vars assign
                              [(sub_id sub, batch_id_of b, st, room_id_of r, fac_id fac).
                                 st \<leftarrow> tl consec_slots])).
                       r \<leftarrow> rooms, fac \<leftarrow> facs]))"

definition lab_continuity ::
  "assign_map \<Rightarrow> faculty list \<Rightarrow> room list \<Rightarrow> subject list \<Rightarrow> batch list \<Rightarrow> pyval list \<Rightarrow> constr list" where
  "lab_continuity assign facs rooms subs bats slots =
     concat [(if needs_continuity sub
              then concat [continuity_at assign facs rooms slots sub b start_slot.
                           b \<leftarrow> bats, start_slot \<leftarrow> slots]
              else []).
             sub \<leftarrow> subs]"

subsection \<open>Hard constraint 8: fixed assignments (lines 187-192)\<close>

text \<open>
  \<^verbatim>\<open>fix["subject_id"]\<close> and the four other subscripts raise \<^verbatim>\<open>KeyError\<close> on an entry
  without the key; a tuple that has no variable adds nothing.
\<close>

definition fixed_key :: "fixed_assignment \<Rightarrow> error + key" where
  "fixed_key fix =
     (case (fix_subject_id fix, fix_batch_id fix, fix_slot fix, fix_room_id fix, fix_faculty_id fix) of
        (Some s, Some b, Some sl, Some r, Some f) \<Rightarrow> Inr (s, b, sl, r, f)
      | _ \<Rightarrow> Inl KeyError)"

fun fixed_constraints :: "assign_map \<Rightarrow> fixed_assignment list \<Rightarrow> error + constr list" where
  "fixed_constraints assign [] = Inr []"
| "fixed_constraints assign (fix # rest) =
     (case fixed_key fix of
        Inl e \<Rightarrow> Inl e
      | Inr k \<Rightarrow>
          (case fixed_constraints assign rest of
             Inl e \<Rightarrow> Inl e
           | Inr cs \<Rightarrow> Inr ((case map_of assign k of None \<Rightarrow> [] | Some v \<Rightarrow> [EqOne v]) @ cs)))"

subsection \<open>The objective (lines 196-215)\<close>

text \<open>
  \<^verbatim>\<open>next((f for f in faculty_list if f.get("id") == fac_id), {})\<close> is \<open>find\<close>; the
  default \<^verbatim>\<open>{}\<close> is falsy, a dictionary found is truthy.
\<close>

definition coeff_of ::
  "faculty list \<Rightarrow> room list \<Rightarrow> batch list \<Rightarrow> key \<Rightarrow> int" where
  "coeff_of facs rooms bats k =
     (case k of (s_id, b_id, sl, r_id, f_id) \<Rightarrow>
        1
        + (case find (\<lambda>f. fac_id f = f_id) facs of
             None \<Rightarrow> 0
           | Some fac \<Rightarrow> if sl \<in> set (get_or (preferred_slots fac) []) then 1 else 0)
        + (case (find (\<lambda>r. room_id_of r = r_id) rooms, find (\<lambda>b. batch_id_of b = b_id) bats) of
             (Some r, Some b) \<Rightarrow>
               (let affinities = get_or (room_affinity r) []
                in if get_or (branch_id b) PNone \<in> set affinities
                      \<or> get_or (track_code b) PNone \<in> set affinities
                   then 1 else 0)
           | _ \<Rightarrow> 0))"

definition objective_terms ::
  "assign_map \<Rightarrow> faculty list \<Rightarrow> room list \<Rightarrow> batch list \<Rightarrow> (nat \<times> int) list" where
  "objective_terms assign facs rooms bats = map (\<lambda>(k, var). (var, coeff_of facs rooms bats k)) assign"

subsection \<open>The whole model (lines 43-215)\<close>

definition hard_constraints ::
  "assign_map \<Rightarrow> faculty list \<Rightarrow> room list \<Rightarrow> subject list \<Rightarrow> batch list \<Rightarrow> pyval list \<Rightarrow> constr list" where
  "hard_constraints assign facs rooms subs bats slots =
     batch_exclusivity assign facs rooms subs bats slots
     @ faculty_exclusivity assign facs rooms subs bats slots
     @ room_exclusivity assign facs rooms subs bats slots
     @ faculty_availability assign facs rooms subs bats slots
     @ room_capacity assign facs rooms subs bats slots
     @ lab_continuity assign facs rooms subs bats slots"

definition build_model ::
  "faculty list \<Rightarrow> room list \<Rightarrow> subject list \<Rightarrow> batch list \<Rightarrow> pyval list \<Rightarrow> fixed_assignment list
     \<Rightarrow> error + (assign_map \<times> cp_model)" where
  "build_model facs rooms subs bats slots fixed =
     (case create_vars (candidate_keys facs rooms subs bats slots) [] 0 of
        (assign, n) \<Rightarrow>
          (case fixed_constraints assign fixed of
             Inl e \<Rightarrow> Inl e
           | Inr fixed_cs \<Rightarrow>
               Inr (assign,
                    \<lparr> num_vars = n,
                      constraints = hard_constraints assign facs rooms subs bats slots @ fixed_cs,
                      objective = objective_terms assign facs rooms bats \<rparr>)))"

section \<open>The solving backend and the result (lines 217-235)\<close>

text \<open>
  The backend (OR-tools CP-SAT) is outside the repository. It answers with a status and a
  solution: the value of every variable, by index. \<^verbatim>\<open>solver.Value(var)\<close> is \<open>sol ! var\<close>.
\<close>

datatype solver_status = UNKNOWN | MODEL_INVALID | FEASIBLE | INFEASIBLE | OPTIMAL

type_synonym backend = "cp_model \<Rightarrow> solver_status \<times> int list"

record assignment =
  subject_id :: pyval
  batch_id :: pyval
  slot :: pyval
  room_id :: pyval
  faculty_id :: pyval

datatype schedule_result =
  StatusOk (assignments_count: nat) (assignments: "assignment list")
| StatusUnsat

definition to_assignment :: "key \<Rightarrow> assignment" where
  "to_assignment k =
     (case k of (s_id, b_id, sl, r_id, f_id) \<Rightarrow>
        \<lparr> subject_id = s_id, batch_id = b_id, slot = sl, room_id = r_id, faculty_id = f_id \<rparr>)"

definition materialize :: "assign_map \<Rightarrow> solver_status \<times> int list \<Rightarrow> schedule_result" where
  "materialize assign answer =
     (case answer of (status, sol) \<Rightarrow>
        if status = OPTIMAL \<or> status = FEASIBLE
        then (let chosen = map (to_assignment \<circ> fst) (filter (\<lambda>(k, var). sol ! var = 1) assign)
              in StatusOk (length chosen) chosen)
        else StatusUnsat)"

text \<open>
  The model one call submits. A \<^verbatim>\<open>None\<close> entity list passes the guarded index
  construction and raises \<^verbatim>\<open>TypeError\<close> at the first loop over it; every such loop is
  reached before the fixed assignments are read.
\<close>

definition model_of :: "inputs \<Rightarrow> error + (assign_map \<times> cp_model)" where
  "model_of inp =
     (case entity_catalog inp of
        Inl e \<Rightarrow> Inl e
      | Inr timeslot_ids \<Rightarrow>
          (case (faculty_list inp, room_list inp, subject_list inp, batch_list inp) of
             (Some facs, Some rooms, Some subs, Some bats) \<Rightarrow>
               build_model facs rooms subs bats timeslot_ids (get_or (fixed_assignments inp) [])
           | _ \<Rightarrow> Inl TypeError))"

definition generate_schedule_from_inputs :: "backend \<Rightarrow> inputs \<Rightarrow> error + schedule_result" where
  "generate_schedule_from_inputs solve inp =
     (case model_of inp of
        Inl e \<Rightarrow> Inl e
      | Inr (assign, model) \<Rightarrow> Inr (materialize assign (solve model)))"

subsection \<open>What the backend promises\<close>

fun holds :: "int list \<Rightarrow> constr \<Rightarrow> bool" where
  "holds sol (SumLe1 vs) = (sum_list (map ((!) sol) vs) \<le> 1)"
| "holds sol (EqZero v) = (sol ! v = 0)"
| "holds sol (EqOne v) = (sol ! v = 1)"
| "holds sol (Le v w) = (sol ! v \<le> sol ! w)"

definition feasible :: "cp_model \<Rightarrow> int list \<Rightarrow> bool" where
  "feasible m sol =
     (length sol = num_vars m
      \<and> list_all (\<lambda>x. x = 0 \<or> x = 1) sol
      \<and> list_all (holds sol) (constraints m))"

definition objective_value :: "cp_model \<Rightarrow> int list \<Rightarrow> int" where
  "objective_value m sol = sum_list (map (\<lambda>(var, coeff). sol ! var * coeff) (objective m))"

text \<open>
  The contract of the backend on one model: a solution reported with \<open>OPTIMAL\<close> or
  \<open>FEASIBLE\<close> satisfies every constraint, an \<open>OPTIMAL\<close> one maximises the objective,
  \<open>INFEASIBLE\<close> is reported only when no solution exists, and a well-formed model is
  never reported invalid. \<open>UNKNOWN\<close> (the time budget ran out) promises nothing.
\<close>

definition backend_contract :: "backend \<Rightarrow> cp_model \<Rightarrow> bool" where
  "backend_contract solve m =
     (case solve m of (status, sol) \<Rightarrow>
        (status = OPTIMAL \<longrightarrow>
           feasible m sol \<and> (\<forall>sol'. feasible m sol' \<longrightarrow> objective_value m sol' \<le> objective_value m sol))
      \<and> (status = FEASIBLE \<longrightarrow> feasible m sol)
      \<and> (status = INFEASIBLE \<longrightarrow> (\<forall>sol'. \<not> feasible m sol'))
      \<and> status \<noteq> MODEL_INVALID)"

text \<open>
  A reference backend that meets the contract: exhaustive search over all 0/1 solutions,
  keeping the first one of greatest objective value.
\<close>

fun all_solutions :: "nat \<Rightarrow> int list list" where
  "all_solutions 0 = [[]]"
| "all_solutions (Suc n) = concat (map (\<lambda>s. [0 # s, 1 # s]) (all_solutions n))"

definition best_of :: "cp_model \<Rightarrow> int list \<Rightarrow> int list list \<Rightarrow> int list" where
  "best_of m s ss =
     fold (\<lambda>c best. if objective_value m best < objective_value m c then c else best) ss s"

definition exhaustive_backend :: backend where
  "exhaustive_backend m =
     (case filter (feasible m) (all_solutions (num_vars m)) of
        [] \<Rightarrow> (INFEASIBLE, [])
      | s # ss \<Rightarrow> (OPTIMAL, best_of m s ss))"

section \<open>Notions used to state the properties\<close>

text \<open>How many of the assignments put the resource \<open>x\<close> (read by \<open>who\<close>) in slot \<open>s\<close>.\<close>

definition count_at :: "(assignment \<Rightarrow> pyval) \<Rightarrow> pyval \<Rightarrow> pyval \<Rightarrow> assignment list \<Rightarrow> nat" where
  "count_at who x s as = length (filter (\<lambda>a. who a = x \<and> slot a = s) as)"

text \<open>
  The objective coefficient in the words of the specification: base 1, plus 1 when the slot
  is among the faculty's preferred slots, plus 1 when the room's affinity tags contain the
  batch's branch id or track code.
\<close>

definition spec_coeff :: "faculty \<Rightarrow> room \<Rightarrow> batch \<Rightarrow> pyval \<Rightarrow> int" where
  "spec_coeff fac r b sl =
     1 + (if sl \<in> set (get_or (preferred_slots fac) []) then 1 else 0)
       + (if get_or (branch_id b) PNone \<in> set (get_or (room_affinity r) [])
             \<or> get_or (track_code b) PNone \<in> set (get_or (room_affinity r) [])
          then 1 else 0)"

text \<open>Some entry of a supplied list has no \<^verbatim>\<open>"id"\<close> key.\<close>

definition lacks_id :: "('a \<Rightarrow> pyval option) \<Rightarrow> 'a list option \<Rightarrow> bool" where
  "lacks_id key_field xs = list_ex (\<lambda>x. key_field x = None) (get_or xs [])"

definition some_id_missing :: "inputs \<Rightarrow> bool" where
  "some_id_missing inp =
     (lacks_id fid (faculty_list inp) \<or> lacks_id rid (room_list inp)
      \<or> lacks_id sid (subject_list inp) \<or> lacks_id bid (batch_list inp)
      \<or> lacks_id tid (timeslot_list inp))"




text \<open>
  A faculty entry with the two fields \<^verbatim>\<open>available_days\<close> and
  \<^verbatim>\<open>no_consecutive_slots\<close> removed; two inputs differ only in these fields when they agree
  after the removal.
\<close>

definition without_days_and_consec :: "faculty \<Rightarrow> faculty" where
  "without_days_and_consec fac = fac\<lparr> available_days := None, no_consecutive_slots := None \<rparr>"

definition differ_only_in_days_and_consec :: "inputs \<Rightarrow> inputs \<Rightarrow> bool" where
  "differ_only_in_days_and_consec inp inp' =
     (map_option (map without_days_and_consec) (faculty_list inp)
        = map_option (map without_days_and_consec) (faculty_list inp')
      \<and> room_list inp = room_list inp'
      \<and> subject_list inp = subject_list inp'
      \<and> batch_list inp = batch_list inp'
      \<and> timeslot_list inp = timeslot_list inp'
      \<and> fixed_assignments inp = fixed_assignments inp')"

section \<open>Example inputs\<close>

definition ex_faculty :: faculty where
  "ex_faculty = \<lparr> fid = Some (PInt 1), available_slots = None, available_days = None,
                  no_consecutive_slots = None, preferred_slots = None \<rparr>"

definition ex_room :: room where
  "ex_room = \<lparr> rid = Some (PInt 1), capacity = Some 50, room_affinity = None \<rparr>"

definition ex_lecture :: subject where
  "ex_lecture = \<lparr> sid = Some (PInt 1), subject_type = Some ''theory'', duration = Some 1,
                  requires_continuous_slots = Some False \<rparr>"

definition ex_lab :: subject where
  "ex_lab = \<lparr> sid = Some (PInt 1), subject_type = Some ''lab'', duration = Some 2,
              requires_continuous_slots = Some False \<rparr>"

definition ex_batch :: "int \<Rightarrow> batch" where
  "ex_batch n = \<lparr> bid = Some (PInt 1), branch_id = Some (PInt 7), track_code = Some (PStr ''TPP''),
                  student_count = Some n \<rparr>"

definition ex_slot :: "string \<Rightarrow> timeslot" where
  "ex_slot s = \<lparr> tid = Some (PStr s) \<rparr>"

text \<open>Scenario 1 of the specification: 40 students, capacity 50, two slots.\<close>

definition lecture_example :: inputs where
  "lecture_example =
     \<lparr> faculty_list = Some [ex_faculty], room_list = Some [ex_room],
       subject_list = Some [ex_lecture], batch_list = Some [ex_batch 40],
       timeslot_list = Some [ex_slot ''s1'', ex_slot ''s2''], fixed_assignments = None \<rparr>"

text \<open>Scenario 2: the same with 60 students.\<close>

definition over_capacity_example :: inputs where
  "over_capacity_example = lecture_example\<lparr> batch_list := Some [ex_batch 60] \<rparr>"

text \<open>Scenario 3: a lab of duration 2 over three ordered slots.\<close>

definition lab_example :: inputs where
  "lab_example =
     \<lparr> faculty_list = Some [ex_faculty], room_list = Some [ex_room],
       subject_list = Some [ex_lab], batch_list = Some [ex_batch 40],
       timeslot_list = Some [ex_slot ''s1'', ex_slot ''s2'', ex_slot ''s3''],
       fixed_assignments = None \<rparr>"

text \<open>Scenario 1 with a fixed assignment that names a room (99) not in the room list.\<close>

definition dangling_fix :: fixed_assignment where
  "dangling_fix =
     \<lparr> fix_subject_id = Some (PInt 1), fix_batch_id = Some (PInt 1), fix_slot = Some (PStr ''s1''),
       fix_room_id = Some (PInt 99), fix_faculty_id = Some (PInt 1) \<rparr>"

definition dangling_fixed_example :: inputs where
  "dangling_fixed_example = lecture_example\<lparr> fixed_assignments := Some [dangling_fix] \<rparr>"



text \<open>
  Scenario 1 with a faculty available only in slot s2 who prefers s2, a room tagged with
  the batch's track code, and no timeslot list.
\<close>

definition picky_faculty :: faculty where
  "picky_faculty = ex_faculty\<lparr> available_slots := Some [PStr ''s2''], preferred_slots := Some [PStr ''s2''],
                               available_days := Some [PStr ''Mon''], no_consecutive_slots := Some True \<rparr>"

definition tagged_room :: room where
  "tagged_room = ex_room\<lparr> room_affinity := Some [PStr ''TPP''] \<rparr>"

definition picky_example :: inputs where
  "picky_example = lecture_example\<lparr> faculty_list := Some [picky_faculty], room_list := Some [tagged_room] \<rparr>"


text \<open>
  Scenario 4 of the specification: two batches, one subject, one room, one faculty and a
  single slot.
\<close>

definition second_batch :: batch where
  "second_batch = \<lparr> bid = Some (PInt 2), branch_id = Some (PInt 7), track_code = Some (PStr ''NTPP''),
                    student_count = Some 30 \<rparr>"

definition shared_faculty_example :: inputs where
  "shared_faculty_example =
     lecture_example\<lparr> batch_list := Some [ex_batch 40, second_batch],
                      timeslot_list := Some [ex_slot ''s1''] \<rparr>"

definition shared_faculty_assign :: assign_map where
  "shared_faculty_assign =
     [((PInt 1, PInt 1, PStr ''s1'', PInt 1, PInt 1), 0),
      ((PInt 1, PInt 2, PStr ''s1'', PInt 1, PInt 1), 1)]"

definition shared_faculty_model :: cp_model where
  "shared_faculty_model =
     \<lparr> num_vars = 2,
       constraints = [SumLe1 [0], SumLe1 [1], SumLe1 [0, 1], SumLe1 [0, 1]],
       objective = [(0, 1), (1, 1)] \<rparr>"

text \<open>The model built for \<open>picky_example\<close> (lemma \<open>picky_example_model\<close>).\<close>

definition picky_model :: cp_model where
  "picky_model =
     \<lparr> num_vars = 2,
       constraints = [SumLe1 [0], SumLe1 [1], SumLe1 [0], SumLe1 [1], SumLe1 [0], SumLe1 [1],
                      EqZero 0],
       objective = [(0, 2), (1, 3)] \<rparr>"

text \<open>
  The variables and the models the builder produces for the three scenarios (lemmas
  \<open>lecture_example_model\<close>, \<open>over_capacity_example_model\<close> and \<open>lab_example_model\<close>).
\<close>

definition two_slot_assign :: assign_map where
  "two_slot_assign =
     [((PInt 1, PInt 1, PStr ''s1'', PInt 1, PInt 1), 0),
      ((PInt 1, PInt 1, PStr ''s2'', PInt 1, PInt 1), 1)]"

definition lecture_model :: cp_model where
  "lecture_model =
     \<lparr> num_vars = 2,
       constraints = [SumLe1 [0], SumLe1 [1], SumLe1 [0], SumLe1 [1], SumLe1 [0], SumLe1 [1]],
       objective = [(0, 1), (1, 1)] \<rparr>"

definition over_capacity_model :: cp_model where
  "over_capacity_model =
     \<lparr> num_vars = 2,
       constraints = [SumLe1 [0], SumLe1 [1], SumLe1 [0], SumLe1 [1], SumLe1 [0], SumLe1 [1],
                      EqZero 0, EqZero 1],
       objective = [(0, 1), (1, 1)] \<rparr>"

definition three_slot_assign :: assign_map where
  "three_slot_assign =
     [((PInt 1, PInt 1, PStr ''s1'', PInt 1, PInt 1), 0),
      ((PInt 1, PInt 1, PStr ''s2'', PInt 1, PInt 1), 1),
      ((PInt 1, PInt 1, PStr ''s3'', PInt 1, PInt 1), 2)]"

definition lab_model :: cp_model where
  "lab_model =
     \<lparr> num_vars = 3,
       constraints = [SumLe1 [0], SumLe1 [1], SumLe1 [2], SumLe1 [0], SumLe1 [1], SumLe1 [2],
                      SumLe1 [0], SumLe1 [1], SumLe1 [2], Le 0 1, Le 1 2, EqZero 2],
       objective = [(0, 1), (1, 1), (2, 1)] \<rparr>"




text \<open>The assignment of the one subject, batch, room and faculty of the scenarios to a slot.\<close>

definition ex_assignment :: "string \<Rightarrow> assignment" where
  "ex_assignment s =
     \<lparr> subject_id = PInt 1, batch_id = PInt 1, slot = PStr s, room_id = PInt 1, faculty_id = PInt 1 \<rparr>"

section \<open>The reference backend meets the contract\<close>

lemma all_solutions_set:
  "set (all_solutions n) = {s. length s = n \<and> list_all (\<lambda>x. x = 0 \<or> x = 1) s}"
proof (induction n)
  case 0
  then show ?case by auto
next
  case (Suc n)
  show ?case
  proof (rule set_eqI)
    fix s :: "int list"
    show "s \<in> set (all_solutions (Suc n)) \<longleftrightarrow> s \<in> {s. length s = Suc n \<and> list_all (\<lambda>x. x = 0 \<or> x = 1) s}"
      using Suc by (cases s) auto
  qed
qed

lemma best_of_mem: "best_of m s ss \<in> set (s # ss)"
  unfolding best_of_def by (induction ss arbitrary: s) auto

lemma best_of_ge_start: "objective_value m s \<le> objective_value m (best_of m s ss)"
  unfolding best_of_def
proof (induction ss arbitrary: s)
  case Nil
  then show ?case by simp
next
  case (Cons c ss)
  show ?case using Cons.IH [of c] Cons.IH [of s] by auto
qed

lemma best_of_max: "c \<in> set (s # ss) \<Longrightarrow> objective_value m c \<le> objective_value m (best_of m s ss)"
proof (induction ss arbitrary: s)
  case Nil
  then show ?case by (simp add: best_of_def)
next
  case (Cons d ss)
  have step: "best_of m s (d # ss) = best_of m (if objective_value m s < objective_value m d then d else s) ss"
    by (simp add: best_of_def)
  show ?case
  proof (cases "c \<in> set ss")
    case True
    then show ?thesis unfolding step using Cons.IH by simp
  next
    case False
    then have "c = s \<or> c = d" using Cons.prems by auto
    then show ?thesis unfolding step
      using best_of_ge_start [of m "if objective_value m s < objective_value m d then d else s" ss]
      by (auto split: if_splits)
  qed
qed

lemma exhaustive_backend_contract: "backend_contract exhaustive_backend m"
proof (cases "filter (feasible m) (all_solutions (num_vars m))")
  case Nil
  have "\<not> feasible m sol'" for sol'
  proof
    assume f: "feasible m sol'"
    then have "sol' \<in> set (all_solutions (num_vars m))"
      by (simp add: all_solutions_set feasible_def)
    with f have "sol' \<in> set (filter (feasible m) (all_solutions (num_vars m)))" by simp
    with Nil show False by simp
  qed
  with Nil show ?thesis by (simp add: backend_contract_def exhaustive_backend_def)
next
  case (Cons s ss)
  have mem: "set (s # ss) = {x \<in> set (all_solutions (num_vars m)). feasible m x}"
    using Cons [symmetric] by simp
  have "best_of m s ss \<in> set (s # ss)" by (rule best_of_mem)
  then have feas: "feasible m (best_of m s ss)" using mem by blast
  have "objective_value m sol' \<le> objective_value m (best_of m s ss)" if f: "feasible m sol'" for sol'
  proof -
    from f have "sol' \<in> set (all_solutions (num_vars m))"
      by (simp add: all_solutions_set feasible_def)
    with f have "sol' \<in> set (s # ss)" using mem by blast
    then show ?thesis by (rule best_of_max)
  qed
  with feas Cons show ?thesis by (simp add: backend_contract_def exhaustive_backend_def)
qed

section \<open>The three scenarios of the specification\<close>

lemma length3E: "length (xs :: 'a list) = 3 \<Longrightarrow> \<exists>a b c. xs = [a, b, c]"
  by (cases xs; cases "tl xs"; cases "tl (tl xs)") auto

lemma length2E: "length (xs :: 'a list) = 2 \<Longrightarrow> \<exists>a b. xs = [a, b]"
  by (cases xs; cases "tl xs") auto

lemma status_cases:
  "s = UNKNOWN \<or> s = MODEL_INVALID \<or> s = FEASIBLE \<or> s = INFEASIBLE \<or> s = OPTIMAL"
  by (cases s) auto

lemma contract_optimal:
  "backend_contract solve m \<Longrightarrow> solve m = (OPTIMAL, sol) \<Longrightarrow>
     feasible m sol \<and> (\<forall>sol'. feasible m sol' \<longrightarrow> objective_value m sol' \<le> objective_value m sol)"
  by (simp add: backend_contract_def)

lemma contract_ok:
  "backend_contract solve m \<Longrightarrow> solve m = (status, sol) \<Longrightarrow>
     status = OPTIMAL \<or> status = FEASIBLE \<Longrightarrow> feasible m sol"
  by (auto simp add: backend_contract_def)

lemma contract_answer:
  "backend_contract solve m \<Longrightarrow> solve m = (status, sol) \<Longrightarrow> feasible m sol' \<Longrightarrow>
     status = UNKNOWN \<or> status = OPTIMAL \<or> status = FEASIBLE"
  using status_cases [of status] by (auto simp add: backend_contract_def)

lemma lab_example_model: "model_of lab_example = Inr (three_slot_assign, lab_model)"
  by code_simp

lemma lecture_example_model: "model_of lecture_example = Inr (two_slot_assign, lecture_model)"
  by code_simp

lemma over_capacity_example_model:
  "model_of over_capacity_example = Inr (two_slot_assign, over_capacity_model)"
  by code_simp

lemma lab_model_feasible: "feasible lab_model sol \<longleftrightarrow> sol = [0, 0, 0]"
proof
  assume f: "feasible lab_model sol"
  then have "length sol = 3" by (simp add: feasible_def lab_model_def)
  then obtain a b c where sol: "sol = [a, b, c]" using length3E by blast
  from f show "sol = [0, 0, 0]" unfolding sol by (auto simp add: feasible_def lab_model_def)
next
  assume "sol = [0, 0, 0]"
  then show "feasible lab_model sol" by (simp add: feasible_def lab_model_def)
qed

lemma over_capacity_model_feasible: "feasible over_capacity_model sol \<longleftrightarrow> sol = [0, 0]"
proof
  assume f: "feasible over_capacity_model sol"
  then have "length sol = 2" by (simp add: feasible_def over_capacity_model_def)
  then obtain a b where sol: "sol = [a, b]" using length2E by blast
  from f show "sol = [0, 0]" unfolding sol by (auto simp add: feasible_def over_capacity_model_def)
next
  assume "sol = [0, 0]"
  then show "feasible over_capacity_model sol" by (simp add: feasible_def over_capacity_model_def)
qed

lemma lecture_model_feasible:
  "feasible lecture_model sol \<longleftrightarrow> (\<exists>a b. sol = [a, b] \<and> (a = 0 \<or> a = 1) \<and> (b = 0 \<or> b = 1))"
proof
  assume f: "feasible lecture_model sol"
  then have "length sol = 2" by (simp add: feasible_def lecture_model_def)
  then obtain a b where sol: "sol = [a, b]" using length2E by blast
  from f show "\<exists>a b. sol = [a, b] \<and> (a = 0 \<or> a = 1) \<and> (b = 0 \<or> b = 1)"
    unfolding sol by (simp add: feasible_def lecture_model_def)
next
  assume "\<exists>a b. sol = [a, b] \<and> (a = 0 \<or> a = 1) \<and> (b = 0 \<or> b = 1)"
  then show "feasible lecture_model sol" by (auto simp add: feasible_def lecture_model_def)
qed

lemma lecture_model_optimal:
  assumes "feasible lecture_model sol"
    and "\<forall>sol'. feasible lecture_model sol' \<longrightarrow> objective_value lecture_model sol' \<le> objective_value lecture_model sol"
  shows "sol = [1, 1]"
proof -
  from assms(1) obtain a b where sol: "sol = [a, b]" and ab: "a = 0 \<or> a = 1" "b = 0 \<or> b = 1"
    using lecture_model_feasible by blast
  have "feasible lecture_model [1, 1]" by (simp add: lecture_model_feasible)
  with assms(2) have "objective_value lecture_model [1, 1] \<le> objective_value lecture_model sol" by blast
  then have "2 \<le> a + b" by (simp add: objective_value_def lecture_model_def sol)
  with ab show ?thesis unfolding sol by auto
qed

text \<open>
  C1. The lab of duration 2 over the slots s1, s2, s3 is never given its two consecutive
  slots. Every slot is treated as the start of a run, so the links s1 \<le> s2 and s2 \<le> s3
  join the exclusion of s3 and force all three variables to 0: whenever the backend answers
  at all, the call returns status ok with no assignment.
\<close>

theorem lab_example_never_scheduled:
  assumes model: "model_of lab_example = Inr (assign, m)"
    and contract: "backend_contract solve m"
    and answered: "fst (solve m) \<noteq> UNKNOWN"
  shows "generate_schedule_from_inputs solve lab_example = Inr (StatusOk 0 [])"
proof -
  from model have a: "assign = three_slot_assign" and m: "m = lab_model"
    by (simp_all add: lab_example_model)
  obtain status sol where sv: "solve m = (status, sol)" by (cases "solve m")
  have "feasible m [0, 0, 0]" by (simp add: m lab_model_feasible)
  from contract_answer [OF contract sv this] answered sv
  have ok: "status = OPTIMAL \<or> status = FEASIBLE" by simp
  from contract_ok [OF contract sv ok] have sol: "sol = [0, 0, 0]"
    by (simp add: m lab_model_feasible)
  from ok show ?thesis
    by (auto simp add: generate_schedule_from_inputs_def model sv materialize_def sol a
        three_slot_assign_def)
qed

theorem lab_example_never_scheduled_witness:
  "model_of lab_example = Inr (three_slot_assign, lab_model)
   \<and> backend_contract exhaustive_backend lab_model
   \<and> fst (exhaustive_backend lab_model) \<noteq> UNKNOWN
   \<and> generate_schedule_from_inputs exhaustive_backend lab_example = Inr (StatusOk 0 [])"
proof -
  have answered: "fst (exhaustive_backend lab_model) \<noteq> UNKNOWN"
    by (simp add: exhaustive_backend_def split: list.split)
  show ?thesis
    using lab_example_never_scheduled [OF lab_example_model exhaustive_backend_contract answered]
      lab_example_model exhaustive_backend_contract answered by simp
qed

text \<open>
  C2, as stated, fails: with 60 students and capacity 50 the reference backend makes the call
  return status ok with an empty assignment list, not unsat.
\<close>

theorem over_capacity_not_unsat:
  "generate_schedule_from_inputs exhaustive_backend over_capacity_example = Inr (StatusOk 0 [])"
  by code_simp

text \<open>
  C2, amended. The capacity rule does force both decision variables to 0, and the all-zero
  solution satisfies every constraint. So a backend that honours its contract cannot report
  infeasibility, and whenever it answers the call returns status ok with no assignment;
  unsat is returned only when the backend gives up (status unknown).
\<close>

theorem over_capacity_returns_empty_ok:
  assumes model: "model_of over_capacity_example = Inr (assign, m)"
    and contract: "backend_contract solve m"
  shows "(\<forall>(k, var) \<in> set assign. EqZero var \<in> set (constraints m))
       \<and> (\<forall>sol. feasible m sol \<longleftrightarrow> sol = replicate (num_vars m) 0)
       \<and> fst (solve m) \<noteq> INFEASIBLE
       \<and> (fst (solve m) \<noteq> UNKNOWN \<longrightarrow>
            generate_schedule_from_inputs solve over_capacity_example = Inr (StatusOk 0 []))
       \<and> (fst (solve m) = UNKNOWN \<longrightarrow>
            generate_schedule_from_inputs solve over_capacity_example = Inr StatusUnsat)"
proof -
  from model have a: "assign = two_slot_assign" and m: "m = over_capacity_model"
    by (simp_all add: over_capacity_example_model)
  obtain status sol where sv: "solve m = (status, sol)" by (cases "solve m")
  have zero: "feasible m [0, 0]" by (simp add: m over_capacity_model_feasible)
  have forced: "\<forall>(k, var) \<in> set assign. EqZero var \<in> set (constraints m)"
    by (simp add: a m two_slot_assign_def over_capacity_model_def)
  have feas: "\<forall>sol. feasible m sol \<longleftrightarrow> sol = replicate (num_vars m) 0"
  proof -
    have "replicate (num_vars m) (0::int) = [0, 0]"
      by (simp add: m over_capacity_model_def numeral_2_eq_2)
    then show ?thesis by (simp add: m over_capacity_model_feasible)
  qed
  from contract_answer [OF contract sv zero]
  have st: "status = UNKNOWN \<or> status = OPTIMAL \<or> status = FEASIBLE" .
  then have ninf: "fst (solve m) \<noteq> INFEASIBLE" by (auto simp add: sv)
  have ans: "generate_schedule_from_inputs solve over_capacity_example = Inr (StatusOk 0 [])"
    if "fst (solve m) \<noteq> UNKNOWN"
  proof -
    from that st sv have ok: "status = OPTIMAL \<or> status = FEASIBLE" by simp
    from contract_ok [OF contract sv ok] have sol: "sol = [0, 0]"
      by (simp add: m over_capacity_model_feasible)
    from ok show ?thesis
      by (auto simp add: generate_schedule_from_inputs_def model sv materialize_def sol a
          two_slot_assign_def)
  qed
  have unk: "generate_schedule_from_inputs solve over_capacity_example = Inr StatusUnsat"
    if "fst (solve m) = UNKNOWN"
    using that by (simp add: generate_schedule_from_inputs_def model sv materialize_def)
  from forced feas ninf ans unk show ?thesis by blast
qed

theorem over_capacity_returns_empty_ok_witness:
  "model_of over_capacity_example = Inr (two_slot_assign, over_capacity_model)
   \<and> backend_contract exhaustive_backend over_capacity_model
   \<and> fst (exhaustive_backend over_capacity_model) = OPTIMAL
   \<and> feasible over_capacity_model [0, 0]
   \<and> EqZero 0 \<in> set (constraints over_capacity_model)
   \<and> EqZero 1 \<in> set (constraints over_capacity_model)
   \<and> generate_schedule_from_inputs exhaustive_backend over_capacity_example = Inr (StatusOk 0 [])"
proof -
  have opt: "fst (exhaustive_backend over_capacity_model) = OPTIMAL"
    by code_simp
  have two: "replicate (num_vars over_capacity_model) (0::int) = [0, 0]"
    by (simp add: over_capacity_model_def numeral_2_eq_2)
  show ?thesis
    using over_capacity_returns_empty_ok [OF over_capacity_example_model exhaustive_backend_contract]
      over_capacity_example_model exhaustive_backend_contract opt two
    by (simp add: two_slot_assign_def)
qed

text \<open>
  C3, as stated, fails: with 40 students the reference backend makes the call return two
  assignments, one in each slot, not exactly one.
\<close>

theorem lecture_example_two_assignments:
  "generate_schedule_from_inputs exhaustive_backend lecture_example
     = Inr (StatusOk 2 [ex_assignment ''s1'', ex_assignment ''s2''])"
  by code_simp

text \<open>
  C3, amended. Nothing limits how often the subject is taught, and the objective counts
  assignments, so a backend that proves optimality fills both slots: the call returns status
  ok with exactly two assignments, the subject in s1 and in s2. With any answer of the backend
  other than unknown the call returns status ok.
\<close>

theorem lecture_example_fills_both_slots:
  assumes model: "model_of lecture_example = Inr (assign, m)"
    and contract: "backend_contract solve m"
  shows "(fst (solve m) = OPTIMAL \<longrightarrow>
            generate_schedule_from_inputs solve lecture_example
              = Inr (StatusOk 2 [ex_assignment ''s1'', ex_assignment ''s2'']))
       \<and> (fst (solve m) \<noteq> UNKNOWN \<longrightarrow>
            (\<exists>n as. generate_schedule_from_inputs solve lecture_example = Inr (StatusOk n as)))"
proof -
  from model have a: "assign = two_slot_assign" and m: "m = lecture_model"
    by (simp_all add: lecture_example_model)
  obtain status sol where sv: "solve m = (status, sol)" by (cases "solve m")
  have zero: "feasible m [0, 0]" by (simp add: m lecture_model_feasible)
  have opt: "generate_schedule_from_inputs solve lecture_example
               = Inr (StatusOk 2 [ex_assignment ''s1'', ex_assignment ''s2''])"
    if "fst (solve m) = OPTIMAL"
  proof -
    from that sv have sv': "solve m = (OPTIMAL, sol)" by simp
    from contract_optimal [OF contract sv'] have "sol = [1, 1]"
      unfolding m by (intro lecture_model_optimal) auto
    then show ?thesis
      by (simp add: generate_schedule_from_inputs_def model sv' materialize_def a
          two_slot_assign_def to_assignment_def ex_assignment_def)
  qed
  have ok: "\<exists>n as. generate_schedule_from_inputs solve lecture_example = Inr (StatusOk n as)"
    if "fst (solve m) \<noteq> UNKNOWN"
  proof -
    from contract_answer [OF contract sv zero] that sv
    have "status = OPTIMAL \<or> status = FEASIBLE" by simp
    then show ?thesis
      by (auto simp add: generate_schedule_from_inputs_def model sv materialize_def Let_def)
  qed
  from opt ok show ?thesis by blast
qed

theorem lecture_example_fills_both_slots_witness:
  "model_of lecture_example = Inr (two_slot_assign, lecture_model)
   \<and> backend_contract exhaustive_backend lecture_model
   \<and> fst (exhaustive_backend lecture_model) = OPTIMAL
   \<and> generate_schedule_from_inputs exhaustive_backend lecture_example
       = Inr (StatusOk 2 [ex_assignment ''s1'', ex_assignment ''s2''])"
proof -
  have opt: "fst (exhaustive_backend lecture_model) = OPTIMAL"
    by code_simp
  show ?thesis
    using lecture_example_fills_both_slots [OF lecture_example_model exhaustive_backend_contract]
      lecture_example_model exhaustive_backend_contract opt
    by simp
qed

section \<open>The decision variables\<close>

lemma update_set_subset: "set (AList.update k v al) \<subseteq> insert (k, v) (set al)"
  by (induction al) auto

lemma update_values_distinct:
  "distinct (map snd al) \<Longrightarrow> v \<notin> snd ` set al \<Longrightarrow> distinct (map snd (AList.update k v al))"
proof (induction al)
  case Nil
  then show ?case by simp
next
  case (Cons p al)
  have "snd ` set (AList.update k v al) \<subseteq> insert v (snd ` set al)"
    using update_set_subset [of k v al] by force
  with Cons show ?case by (auto simp add: image_iff)
qed

lemma create_vars_count: "snd (create_vars ks a n) = n + length ks"
  by (induction ks arbitrary: a n) auto

lemma create_vars_keys: "fst ` set (fst (create_vars ks a n)) = fst ` set a \<union> set ks"
  by (induction ks arbitrary: a n) (auto simp add: AList.dom_update)

lemma create_vars_distinct_keys:
  "distinct (map fst a) \<Longrightarrow> distinct (map fst (fst (create_vars ks a n)))"
  by (induction ks arbitrary: a n) (auto simp add: AList.distinct_update)

lemma create_vars_range:
  "\<forall>v \<in> snd ` set a. v < n \<Longrightarrow> \<forall>v \<in> snd ` set (fst (create_vars ks a n)). v < n + length ks"
proof (induction ks arbitrary: a n)
  case Nil
  then show ?case by simp
next
  case (Cons k ks)
  have "\<forall>v \<in> snd ` set (AList.update k n a). v < Suc n"
    using Cons.prems update_set_subset [of k n a] by (fastforce simp add: less_Suc_eq)
  from Cons.IH [OF this] show ?case by simp
qed

lemma create_vars_distinct_values:
  "distinct (map snd a) \<Longrightarrow> \<forall>v \<in> snd ` set a. v < n \<Longrightarrow>
     distinct (map snd (fst (create_vars ks a n)))"
proof (induction ks arbitrary: a n)
  case Nil
  then show ?case by simp
next
  case (Cons k ks)
  have fresh: "n \<notin> snd ` set a" using Cons.prems(2) by auto
  have d: "distinct (map snd (AList.update k n a))"
    using update_values_distinct [OF Cons.prems(1) fresh] .
  have r: "\<forall>v \<in> snd ` set (AList.update k n a). v < Suc n"
    using Cons.prems(2) update_set_subset [of k n a] by (fastforce simp add: less_Suc_eq)
  from Cons.IH [OF d r] show ?case by simp
qed

text \<open>What a successful build returns.\<close>

lemma build_model_parts:
  assumes "build_model facs rooms subs bats slots fixed = Inr (assign, m)"
  shows "assign = fst (create_vars (candidate_keys facs rooms subs bats slots) [] 0)"
    and "num_vars m = length (candidate_keys facs rooms subs bats slots)"
    and "\<exists>fixed_cs. fixed_constraints assign fixed = Inr fixed_cs
           \<and> constraints m = hard_constraints assign facs rooms subs bats slots @ fixed_cs"
    and "objective m = objective_terms assign facs rooms bats"
proof -
  obtain a n where cv: "create_vars (candidate_keys facs rooms subs bats slots) [] 0 = (a, n)"
    by (cases "create_vars (candidate_keys facs rooms subs bats slots) [] 0")
  have n: "n = length (candidate_keys facs rooms subs bats slots)"
    using create_vars_count [of "candidate_keys facs rooms subs bats slots" "[]" 0] cv by simp
  from assms cv show "assign = fst (create_vars (candidate_keys facs rooms subs bats slots) [] 0)"
    by (auto simp add: build_model_def split: sum.splits)
  from assms cv n show "num_vars m = length (candidate_keys facs rooms subs bats slots)"
    by (auto simp add: build_model_def split: sum.splits)
  from assms cv show "\<exists>fixed_cs. fixed_constraints assign fixed = Inr fixed_cs
           \<and> constraints m = hard_constraints assign facs rooms subs bats slots @ fixed_cs"
    by (auto simp add: build_model_def split: sum.splits)
  from assms cv show "objective m = objective_terms assign facs rooms bats"
    by (auto simp add: build_model_def split: sum.splits)
qed

lemma build_model_assign:
  assumes "build_model facs rooms subs bats slots fixed = Inr (assign, m)"
  shows "distinct (map fst assign)"
    and "distinct (map snd assign)"
    and "fst ` set assign = set (candidate_keys facs rooms subs bats slots)"
    and "\<forall>v \<in> snd ` set assign. v < num_vars m"
proof -
  note parts = build_model_parts [OF assms]
  show "distinct (map fst assign)"
    unfolding parts(1) by (rule create_vars_distinct_keys) simp
  show "distinct (map snd assign)"
    unfolding parts(1) by (rule create_vars_distinct_values) simp_all
  show "fst ` set assign = set (candidate_keys facs rooms subs bats slots)"
    unfolding parts(1) by (simp add: create_vars_keys)
  show "\<forall>v \<in> snd ` set assign. v < num_vars m"
    unfolding parts(1) parts(2)
    using create_vars_range [of "[]" 0 "candidate_keys facs rooms subs bats slots"] by simp
qed

lemma candidate_keys_iff:
  "k \<in> set (candidate_keys facs rooms subs bats slots) \<longleftrightarrow>
     (\<exists>sub \<in> set subs. \<exists>b \<in> set bats. \<exists>sl \<in> set slots. \<exists>r \<in> set rooms. \<exists>fac \<in> set facs.
        k = (sub_id sub, batch_id_of b, sl, room_id_of r, fac_id fac))"
  by (fastforce simp add: candidate_keys_def image_iff)

lemma lookup_vars_set:
  "set (lookup_vars assign ks) = {v. \<exists>k \<in> set ks. map_of assign k = Some v}"
  unfolding lookup_vars_def by (induction ks) (auto split: option.splits)

lemma model_of_parts:
  assumes "model_of inp = Inr (assign, m)"
  shows "\<exists>facs rooms subs bats slots.
           faculty_list inp = Some facs \<and> room_list inp = Some rooms
         \<and> subject_list inp = Some subs \<and> batch_list inp = Some bats
         \<and> entity_catalog inp = Inr slots
         \<and> build_model facs rooms subs bats slots (get_or (fixed_assignments inp) []) = Inr (assign, m)"
  using assms by (auto simp add: model_of_def split: sum.splits option.splits)

section \<open>Exclusivity of batches, faculty and rooms\<close>

lemma member_le_sum_list_int:
  fixes f :: "'a \<Rightarrow> int"
  assumes "x \<in> set xs" "\<forall>y \<in> set xs. 0 \<le> f y"
  shows "f x \<le> sum_list (map f xs)"
  using assms
proof (induction xs)
  case Nil
  then show ?case by simp
next
  case (Cons a xs)
  have nonneg: "0 \<le> sum_list (map f xs)"
    using Cons.prems(2) by (intro sum_list_nonneg) auto
  show ?case
  proof (cases "x = a")
    case True
    with nonneg show ?thesis by simp
  next
    case False
    with Cons have "f x \<le> sum_list (map f xs)" by auto
    moreover have "0 \<le> f a" using Cons.prems(2) by simp
    ultimately show ?thesis by simp
  qed
qed

lemma sum_list_two_ones:
  fixes f :: "'a \<Rightarrow> int"
  assumes "v \<in> set vs" "w \<in> set vs" "v \<noteq> w" "f v = 1" "f w = 1" "\<forall>x \<in> set vs. 0 \<le> f x"
  shows "2 \<le> sum_list (map f vs)"
  using assms
proof (induction vs)
  case Nil
  then show ?case by simp
next
  case (Cons a vs)
  have rest: "\<forall>x \<in> set vs. 0 \<le> f x" using Cons.prems(6) by simp
  have fa: "0 \<le> f a" using Cons.prems(6) by simp
  consider "a = v" | "a = w" | "a \<noteq> v" "a \<noteq> w" by blast
  then show ?case
  proof cases
    case 1
    with Cons.prems have "w \<in> set vs" by auto
    from member_le_sum_list_int [OF this rest] Cons.prems 1 show ?thesis by simp
  next
    case 2
    with Cons.prems have "v \<in> set vs" by auto
    from member_le_sum_list_int [OF this rest] Cons.prems 2 show ?thesis by simp
  next
    case 3
    with Cons.prems have "v \<in> set vs" "w \<in> set vs" by auto
    from Cons.IH [OF this Cons.prems(3,4,5) rest] fa show ?thesis by simp
  qed
qed

lemma map_of_assign:
  "distinct (map fst assign) \<Longrightarrow> (k, v) \<in> set assign \<Longrightarrow> map_of assign k = Some v"
  by simp

lemma feasible_value:
  assumes "feasible m sol" "v < num_vars m"
  shows "sol ! v = 0 \<or> sol ! v = 1"
  using assms by (auto simp add: feasible_def list_all_length)

lemma feasible_holds:
  "feasible m sol \<Longrightarrow> c \<in> set (constraints m) \<Longrightarrow> holds sol c"
  by (auto simp add: feasible_def list_all_iff)

text \<open>
  Two variables of value 1 that both occur in one \<open>sum \<le> 1\<close> constraint belong to the same
  tuple.
\<close>

lemma exclusive_from_sum:
  assumes feas: "feasible m sol"
    and range: "\<forall>v \<in> snd ` set assign. v < num_vars m"
    and dk: "distinct (map fst assign)"
    and dv: "distinct (map snd assign)"
    and c: "SumLe1 (lookup_vars assign K) \<in> set (constraints m)"
    and kv: "(k, v) \<in> set assign" "(k', v') \<in> set assign"
    and kK: "k \<in> set K" "k' \<in> set K"
    and one: "sol ! v = 1" "sol ! v' = 1"
  shows "k = k'"
proof (rule ccontr)
  assume ne: "k \<noteq> k'"
  have "v \<noteq> v'"
  proof
    assume "v = v'"
    with kv dv have "(k, v) = (k', v)"
      by (metis distinct_map inj_onD snd_conv)
    with ne show False by simp
  qed
  moreover have "v \<in> set (lookup_vars assign K)"
    unfolding lookup_vars_set using kK(1) map_of_assign [OF dk kv(1)] by blast
  moreover have "v' \<in> set (lookup_vars assign K)"
    unfolding lookup_vars_set using kK(2) map_of_assign [OF dk kv(2)] by blast
  moreover have "\<forall>x \<in> set (lookup_vars assign K). 0 \<le> sol ! x"
  proof
    fix x assume "x \<in> set (lookup_vars assign K)"
    then obtain kx where "map_of assign kx = Some x" unfolding lookup_vars_set by blast
    then have "(kx, x) \<in> set assign" by (rule map_of_SomeD)
    then have "x < num_vars m" using range by force
    from feasible_value [OF feas this] show "0 \<le> sol ! x" by auto
  qed
  ultimately have "2 \<le> sum_list (map ((!) sol) (lookup_vars assign K))"
    using one by (intro sum_list_two_ones [of v _ v']) auto
  moreover from feasible_holds [OF feas c]
  have "sum_list (map ((!) sol) (lookup_vars assign K)) \<le> 1" by simp
  ultimately show False by simp
qed

lemma sum_le1_mem: "to_sum \<noteq> [] \<Longrightarrow> SumLe1 to_sum \<in> set (sum_le1 to_sum)"
  by (simp add: sum_le1_def)

lemma batch_exclusivity_mem:
  assumes "b \<in> set bats" "sl \<in> set slots"
    and "lookup_vars assign
           [(sub_id sub, batch_id_of b, sl, room_id_of r, fac_id fac).
              sub \<leftarrow> subs, r \<leftarrow> rooms, fac \<leftarrow> facs] \<noteq> []"
  shows "SumLe1 (lookup_vars assign
           [(sub_id sub, batch_id_of b, sl, room_id_of r, fac_id fac).
              sub \<leftarrow> subs, r \<leftarrow> rooms, fac \<leftarrow> facs])
         \<in> set (batch_exclusivity assign facs rooms subs bats slots)"
  unfolding batch_exclusivity_def using assms(1,2) sum_le1_mem [OF assms(3)]
  by (auto intro!: bexI [of _ b] bexI [of _ sl])

lemma faculty_exclusivity_mem:
  assumes "fac \<in> set facs" "sl \<in> set slots"
    and "lookup_vars assign
           [(sub_id sub, batch_id_of b, sl, room_id_of r, fac_id fac).
              sub \<leftarrow> subs, b \<leftarrow> bats, r \<leftarrow> rooms] \<noteq> []"
  shows "SumLe1 (lookup_vars assign
           [(sub_id sub, batch_id_of b, sl, room_id_of r, fac_id fac).
              sub \<leftarrow> subs, b \<leftarrow> bats, r \<leftarrow> rooms])
         \<in> set (faculty_exclusivity assign facs rooms subs bats slots)"
  unfolding faculty_exclusivity_def using assms(1,2) sum_le1_mem [OF assms(3)]
  by (auto intro!: bexI [of _ fac] bexI [of _ sl])

lemma room_exclusivity_mem:
  assumes "r \<in> set rooms" "sl \<in> set slots"
    and "lookup_vars assign
           [(sub_id sub, batch_id_of b, sl, room_id_of r, fac_id fac).
              sub \<leftarrow> subs, b \<leftarrow> bats, fac \<leftarrow> facs] \<noteq> []"
  shows "SumLe1 (lookup_vars assign
           [(sub_id sub, batch_id_of b, sl, room_id_of r, fac_id fac).
              sub \<leftarrow> subs, b \<leftarrow> bats, fac \<leftarrow> facs])
         \<in> set (room_exclusivity assign facs rooms subs bats slots)"
  unfolding room_exclusivity_def using assms(1,2) sum_le1_mem [OF assms(3)]
  by (auto intro!: bexI [of _ r] bexI [of _ sl])

lemma filter_le_one:
  assumes "distinct xs"
    and "\<And>x y. x \<in> set xs \<Longrightarrow> y \<in> set xs \<Longrightarrow> P x \<Longrightarrow> P y \<Longrightarrow> x = y"
  shows "length (filter P xs) \<le> 1"
proof (cases "filter P xs")
  case Nil
  then show ?thesis by simp
next
  case (Cons x rest)
  then have "x \<in> set (filter P xs)" by simp
  then have x: "x \<in> set xs" "P x" by simp_all
  have sub: "set (filter P xs) \<subseteq> {x}" using assms(2) x by auto
  have "card (set (filter P xs)) \<le> card {x}"
    by (rule card_mono [OF _ sub]) simp
  then have "card (set (filter P xs)) \<le> 1" by simp
  moreover have "distinct (filter P xs)" using assms(1) by simp
  then have "card (set (filter P xs)) = length (filter P xs)" by (rule distinct_card)
  ultimately show ?thesis by (simp only:)
qed

lemma to_assignment_inj: "to_assignment k = to_assignment k' \<Longrightarrow> k = k'"
  by (cases k; cases k') (simp add: to_assignment_def)

lemma to_assignment_fields:
  "subject_id (to_assignment (s, b, sl, r, f)) = s"
  "batch_id (to_assignment (s, b, sl, r, f)) = b"
  "slot (to_assignment (s, b, sl, r, f)) = sl"
  "room_id (to_assignment (s, b, sl, r, f)) = r"
  "faculty_id (to_assignment (s, b, sl, r, f)) = f"
  by (simp_all add: to_assignment_def)

text \<open>The assignments of a result with status ok.\<close>

lemma materialize_ok:
  assumes "materialize assign (status, sol) = StatusOk n as"
  shows "(status = OPTIMAL \<or> status = FEASIBLE)"
    and "as = map (to_assignment \<circ> fst) (filter (\<lambda>(k, var). sol ! var = 1) assign)"
    and "n = length as"
  using assms by (auto simp add: materialize_def Let_def split: if_splits)

lemma chosen_iff:
  "a \<in> set (map (to_assignment \<circ> fst) (filter (\<lambda>(k, var). sol ! var = 1) assign)) \<longleftrightarrow>
     (\<exists>k v. (k, v) \<in> set assign \<and> sol ! v = 1 \<and> a = to_assignment k)"
  by force

lemma chosen_distinct:
  assumes "distinct (map fst assign)"
  shows "distinct (map (to_assignment \<circ> fst) (filter (\<lambda>(k, var). sol ! var = 1) assign))"
proof -
  have "distinct (map fst (filter (\<lambda>(k, var). sol ! var = 1) assign))"
    using assms by (rule distinct_map_filter)
  moreover have "inj_on to_assignment (set (map fst (filter (\<lambda>(k, var). sol ! var = 1) assign)))"
    by (rule inj_onI) (rule to_assignment_inj)
  ultimately have "distinct (map to_assignment (map fst (filter (\<lambda>(k, var). sol ! var = 1) assign)))"
    by (subst distinct_map) blast
  then show ?thesis by (simp only: map_map)
qed

lemma hard_constraints_mem:
  assumes "build_model facs rooms subs bats slots fixed = Inr (assign, m)"
    and "c \<in> set (hard_constraints assign facs rooms subs bats slots)"
  shows "c \<in> set (constraints m)"
  using build_model_parts(3) [OF assms(1)] assms(2) by auto

text \<open>
  In a solution that satisfies the model, two chosen tuples with the same batch (faculty,
  room) and slot are the same tuple.
\<close>

lemma chosen_same_batch:
  assumes build: "build_model facs rooms subs bats slots fixed = Inr (assign, m)"
    and feas: "feasible m sol"
    and kv: "((s, b, sl, r, f), v) \<in> set assign" "((s', b, sl, r', f'), v') \<in> set assign"
    and one: "sol ! v = 1" "sol ! v' = 1"
  shows "(s, b, sl, r, f) = (s', b, sl, r', f')"
proof -
  note inv = build_model_assign [OF build]
  from kv inv(3) have k: "(s, b, sl, r, f) \<in> set (candidate_keys facs rooms subs bats slots)"
    and k': "(s', b, sl, r', f') \<in> set (candidate_keys facs rooms subs bats slots)"
    by force+
  from k obtain sub bt rm fac where m1: "sub \<in> set subs" "bt \<in> set bats" "sl \<in> set slots"
      "rm \<in> set rooms" "fac \<in> set facs"
      "s = sub_id sub" "b = batch_id_of bt" "r = room_id_of rm" "f = fac_id fac"
    unfolding candidate_keys_iff by auto
  from k' obtain sub' bt' rm' fac' where m2: "sub' \<in> set subs" "rm' \<in> set rooms" "fac' \<in> set facs"
      "s' = sub_id sub'" "r' = room_id_of rm'" "f' = fac_id fac'"
    unfolding candidate_keys_iff by auto
  let ?K = "[(sub_id sub, batch_id_of bt, sl, room_id_of r, fac_id fac).
              sub \<leftarrow> subs, r \<leftarrow> rooms, fac \<leftarrow> facs]"
  have inK: "(s, b, sl, r, f) \<in> set ?K" "(s', b, sl, r', f') \<in> set ?K"
    using m1 m2 by (auto simp add: image_iff)
  have "v \<in> set (lookup_vars assign ?K)"
    unfolding lookup_vars_set using inK(1) map_of_assign [OF inv(1) kv(1)] by blast
  then have ne: "lookup_vars assign ?K \<noteq> []" by auto
  have "SumLe1 (lookup_vars assign ?K) \<in> set (batch_exclusivity assign facs rooms subs bats slots)"
    using batch_exclusivity_mem [OF m1(2) m1(3) ne] .
  then have c: "SumLe1 (lookup_vars assign ?K) \<in> set (constraints m)"
    by (intro hard_constraints_mem [OF build]) (simp add: hard_constraints_def)
  show ?thesis
    by (rule exclusive_from_sum [OF feas inv(4) inv(1) inv(2) c kv inK one])
qed

lemma chosen_same_faculty:
  assumes build: "build_model facs rooms subs bats slots fixed = Inr (assign, m)"
    and feas: "feasible m sol"
    and kv: "((s, b, sl, r, f), v) \<in> set assign" "((s', b', sl, r', f), v') \<in> set assign"
    and one: "sol ! v = 1" "sol ! v' = 1"
  shows "(s, b, sl, r, f) = (s', b', sl, r', f)"
proof -
  note inv = build_model_assign [OF build]
  from kv inv(3) have k: "(s, b, sl, r, f) \<in> set (candidate_keys facs rooms subs bats slots)"
    and k': "(s', b', sl, r', f) \<in> set (candidate_keys facs rooms subs bats slots)"
    by force+
  from k obtain sub bt rm fac where m1: "sub \<in> set subs" "bt \<in> set bats" "sl \<in> set slots"
      "rm \<in> set rooms" "fac \<in> set facs"
      "s = sub_id sub" "b = batch_id_of bt" "r = room_id_of rm" "f = fac_id fac"
    unfolding candidate_keys_iff by auto
  from k' obtain sub' bt' rm' where m2: "sub' \<in> set subs" "bt' \<in> set bats" "rm' \<in> set rooms"
      "s' = sub_id sub'" "b' = batch_id_of bt'" "r' = room_id_of rm'"
    unfolding candidate_keys_iff by auto
  let ?K = "[(sub_id sub, batch_id_of b, sl, room_id_of r, fac_id fac).
              sub \<leftarrow> subs, b \<leftarrow> bats, r \<leftarrow> rooms]"
  have inK: "(s, b, sl, r, f) \<in> set ?K" "(s', b', sl, r', f) \<in> set ?K"
    using m1 m2 by (auto simp add: image_iff)
  have "v \<in> set (lookup_vars assign ?K)"
    unfolding lookup_vars_set using inK(1) map_of_assign [OF inv(1) kv(1)] by blast
  then have ne: "lookup_vars assign ?K \<noteq> []" by auto
  have "SumLe1 (lookup_vars assign ?K) \<in> set (faculty_exclusivity assign facs rooms subs bats slots)"
    using faculty_exclusivity_mem [OF m1(5) m1(3) ne] .
  then have c: "SumLe1 (lookup_vars assign ?K) \<in> set (constraints m)"
    by (intro hard_constraints_mem [OF build]) (simp add: hard_constraints_def)
  show ?thesis
    by (rule exclusive_from_sum [OF feas inv(4) inv(1) inv(2) c kv inK one])
qed

lemma chosen_same_room:
  assumes build: "build_model facs rooms subs bats slots fixed = Inr (assign, m)"
    and feas: "feasible m sol"
    and kv: "((s, b, sl, r, f), v) \<in> set assign" "((s', b', sl, r, f'), v') \<in> set assign"
    and one: "sol ! v = 1" "sol ! v' = 1"
  shows "(s, b, sl, r, f) = (s', b', sl, r, f')"
proof -
  note inv = build_model_assign [OF build]
  from kv inv(3) have k: "(s, b, sl, r, f) \<in> set (candidate_keys facs rooms subs bats slots)"
    and k': "(s', b', sl, r, f') \<in> set (candidate_keys facs rooms subs bats slots)"
    by force+
  from k obtain sub bt rm fac where m1: "sub \<in> set subs" "bt \<in> set bats" "sl \<in> set slots"
      "rm \<in> set rooms" "fac \<in> set facs"
      "s = sub_id sub" "b = batch_id_of bt" "r = room_id_of rm" "f = fac_id fac"
    unfolding candidate_keys_iff by auto
  from k' obtain sub' bt' fac' where m2: "sub' \<in> set subs" "bt' \<in> set bats" "fac' \<in> set facs"
      "s' = sub_id sub'" "b' = batch_id_of bt'" "f' = fac_id fac'"
    unfolding candidate_keys_iff by auto
  let ?K = "[(sub_id sub, batch_id_of b, sl, room_id_of rm, fac_id fac).
              sub \<leftarrow> subs, b \<leftarrow> bats, fac \<leftarrow> facs]"
  have inK: "(s, b, sl, r, f) \<in> set ?K" "(s', b', sl, r, f') \<in> set ?K"
    using m1 m2 by (auto simp add: image_iff)
  have "v \<in> set (lookup_vars assign ?K)"
    unfolding lookup_vars_set using inK(1) map_of_assign [OF inv(1) kv(1)] by blast
  then have ne: "lookup_vars assign ?K \<noteq> []" by auto
  have "SumLe1 (lookup_vars assign ?K) \<in> set (room_exclusivity assign facs rooms subs bats slots)"
    using room_exclusivity_mem [OF m1(4) m1(3) ne] .
  then have c: "SumLe1 (lookup_vars assign ?K) \<in> set (constraints m)"
    by (intro hard_constraints_mem [OF build]) (simp add: hard_constraints_def)
  show ?thesis
    by (rule exclusive_from_sum [OF feas inv(4) inv(1) inv(2) c kv inK one])
qed


lemma shared_faculty_example_model:
  "model_of shared_faculty_example = Inr (shared_faculty_assign, shared_faculty_model)"
  by code_simp

lemma shared_faculty_example_result:
  "generate_schedule_from_inputs exhaustive_backend shared_faculty_example
     = Inr (StatusOk 1 [ex_assignment ''s1''])"
  by code_simp

text \<open>
  C6. In every result with status ok, returned from a backend that honours its contract, at
  most one assignment has a given batch and slot, at most one a given faculty and slot, and
  at most one a given room and slot.
\<close>

theorem ok_result_exclusive:
  assumes model: "model_of inp = Inr (assign, m)"
    and contract: "backend_contract solve m"
    and result: "generate_schedule_from_inputs solve inp = Inr (StatusOk n as)"
  shows "count_at batch_id b s as \<le> 1
       \<and> count_at faculty_id f s as \<le> 1
       \<and> count_at room_id r s as \<le> 1"
proof -
  from model_of_parts [OF model] obtain facs rooms subs bats slots
    where build: "build_model facs rooms subs bats slots (get_or (fixed_assignments inp) []) = Inr (assign, m)"
    by blast
  obtain status sol where sv: "solve m = (status, sol)" by (cases "solve m")
  from result have mat: "materialize assign (status, sol) = StatusOk n as"
    by (simp add: generate_schedule_from_inputs_def model sv)
  note ok = materialize_ok [OF mat]
  have feas: "feasible m sol" using contract_ok [OF contract sv ok(1)] .
  note inv = build_model_assign [OF build]
  have dist: "distinct as" unfolding ok(2) using inv(1) by (rule chosen_distinct)
  have mem: "\<And>a. a \<in> set as \<Longrightarrow> \<exists>k v. (k, v) \<in> set assign \<and> sol ! v = 1 \<and> a = to_assignment k"
    unfolding ok(2) chosen_iff by blast
  have batch: "count_at batch_id b s as \<le> 1"
    unfolding count_at_def
  proof (rule filter_le_one [OF dist])
    fix x y assume "x \<in> set as" "y \<in> set as"
      and px: "batch_id x = b \<and> slot x = s" and py: "batch_id y = b \<and> slot y = s"
    then obtain k v k' v' where x: "(k, v) \<in> set assign" "sol ! v = 1" "x = to_assignment k"
      and y: "(k', v') \<in> set assign" "sol ! v' = 1" "y = to_assignment k'"
      using mem by blast
    obtain s1 b1 sl1 r1 f1 where k: "k = (s1, b1, sl1, r1, f1)" by (cases k)
    obtain s2 b2 sl2 r2 f2 where k': "k' = (s2, b2, sl2, r2, f2)" by (cases k')
    from px py x(3) y(3) have eq: "b1 = b" "sl1 = s" "b2 = b" "sl2 = s"
      by (simp_all add: k k' to_assignment_fields)
    have "k = k'" unfolding k k' eq
      by (rule chosen_same_batch [OF build feas _ _ x(2) y(2)])
         (use x(1) y(1) in \<open>simp_all add: k k' eq\<close>)
    then show "x = y" by (simp add: x(3) y(3))
  qed
  have faculty: "count_at faculty_id f s as \<le> 1"
    unfolding count_at_def
  proof (rule filter_le_one [OF dist])
    fix x y assume "x \<in> set as" "y \<in> set as"
      and px: "faculty_id x = f \<and> slot x = s" and py: "faculty_id y = f \<and> slot y = s"
    then obtain k v k' v' where x: "(k, v) \<in> set assign" "sol ! v = 1" "x = to_assignment k"
      and y: "(k', v') \<in> set assign" "sol ! v' = 1" "y = to_assignment k'"
      using mem by blast
    obtain s1 b1 sl1 r1 f1 where k: "k = (s1, b1, sl1, r1, f1)" by (cases k)
    obtain s2 b2 sl2 r2 f2 where k': "k' = (s2, b2, sl2, r2, f2)" by (cases k')
    from px py x(3) y(3) have eq: "f1 = f" "sl1 = s" "f2 = f" "sl2 = s"
      by (simp_all add: k k' to_assignment_fields)
    have "k = k'" unfolding k k' eq
      by (rule chosen_same_faculty [OF build feas _ _ x(2) y(2)])
         (use x(1) y(1) in \<open>simp_all add: k k' eq\<close>)
    then show "x = y" by (simp add: x(3) y(3))
  qed
  have room: "count_at room_id r s as \<le> 1"
    unfolding count_at_def
  proof (rule filter_le_one [OF dist])
    fix x y assume "x \<in> set as" "y \<in> set as"
      and px: "room_id x = r \<and> slot x = s" and py: "room_id y = r \<and> slot y = s"
    then obtain k v k' v' where x: "(k, v) \<in> set assign" "sol ! v = 1" "x = to_assignment k"
      and y: "(k', v') \<in> set assign" "sol ! v' = 1" "y = to_assignment k'"
      using mem by blast
    obtain s1 b1 sl1 r1 f1 where k: "k = (s1, b1, sl1, r1, f1)" by (cases k)
    obtain s2 b2 sl2 r2 f2 where k': "k' = (s2, b2, sl2, r2, f2)" by (cases k')
    from px py x(3) y(3) have eq: "r1 = r" "sl1 = s" "r2 = r" "sl2 = s"
      by (simp_all add: k k' to_assignment_fields)
    have "k = k'" unfolding k k' eq
      by (rule chosen_same_room [OF build feas _ _ x(2) y(2)])
         (use x(1) y(1) in \<open>simp_all add: k k' eq\<close>)
    then show "x = y" by (simp add: x(3) y(3))
  qed
  from batch faculty room show ?thesis by blast
qed

theorem ok_result_exclusive_witness:
  "model_of shared_faculty_example = Inr (shared_faculty_assign, shared_faculty_model)
   \<and> backend_contract exhaustive_backend shared_faculty_model
   \<and> generate_schedule_from_inputs exhaustive_backend shared_faculty_example
       = Inr (StatusOk 1 [ex_assignment ''s1''])
   \<and> count_at batch_id (PInt 1) (PStr ''s1'') [ex_assignment ''s1''] = 1
   \<and> count_at batch_id (PInt 2) (PStr ''s1'') [ex_assignment ''s1''] = 0
   \<and> count_at faculty_id (PInt 1) (PStr ''s1'') [ex_assignment ''s1''] \<le> 1
   \<and> count_at room_id (PInt 1) (PStr ''s1'') [ex_assignment ''s1''] \<le> 1"
  using ok_result_exclusive [OF shared_faculty_example_model exhaustive_backend_contract
      shared_faculty_example_result, of "PInt 1" "PStr ''s1''" "PInt 1" "PInt 1"]
    shared_faculty_example_model exhaustive_backend_contract shared_faculty_example_result
  by (simp add: count_at_def ex_assignment_def)

section \<open>Faculty availability\<close>

lemma picky_example_model: "model_of picky_example = Inr (two_slot_assign, picky_model)"
  by code_simp

lemma picky_example_result:
  "generate_schedule_from_inputs exhaustive_backend picky_example
     = Inr (StatusOk 1 [ex_assignment ''s2''])"
  by code_simp

lemma in_concat1: "a \<in> set as \<Longrightarrow> x \<in> set (g a) \<Longrightarrow> x \<in> set (concat (map g as))"
  by auto

lemma in_concat2:
  "a \<in> set as \<Longrightarrow> b \<in> set bs \<Longrightarrow> x \<in> set (g a b)
     \<Longrightarrow> x \<in> set (concat [g a b. a \<leftarrow> as, b \<leftarrow> bs])"
  by auto

lemma in_concat3:
  "a \<in> set as \<Longrightarrow> b \<in> set bs \<Longrightarrow> c \<in> set cs \<Longrightarrow> x \<in> set (g a b c)
     \<Longrightarrow> x \<in> set (concat [g a b c. a \<leftarrow> as, b \<leftarrow> bs, c \<leftarrow> cs])"
  by auto

lemma faculty_availability_mem:
  assumes "fac \<in> set facs" "sub \<in> set subs" "b \<in> set bats" "sl \<in> set slots" "r \<in> set rooms"
    and "get_or (available_slots fac) [] \<noteq> []"
    and "sl \<notin> set (get_or (available_slots fac) [])"
    and "map_of assign (sub_id sub, batch_id_of b, sl, room_id_of r, fac_id fac) = Some v"
  shows "EqZero v \<in> set (faculty_availability assign facs rooms subs bats slots)"
proof -
  have "v \<in> set (lookup_vars assign
           [(sub_id sub, batch_id_of b, sl, room_id_of r, fac_id fac). r \<leftarrow> rooms])"
    unfolding lookup_vars_set using assms(5,8) by auto
  then have "EqZero v \<in> set (if get_or (available_slots fac) [] \<noteq> []
                                 \<and> sl \<notin> set (get_or (available_slots fac) [])
                              then map EqZero (lookup_vars assign
                                     [(sub_id sub, batch_id_of b, sl, room_id_of r, fac_id fac). r \<leftarrow> rooms])
                              else [])"
    using assms(6,7) by simp
  then show ?thesis
    unfolding faculty_availability_def Let_def
    by (intro in_concat1 [OF assms(1)] in_concat3 [OF assms(2,3,4)])
qed

text \<open>
  C7. For a faculty entry whose \<open>available_slots\<close> is not empty, the model holds the
  constraint \<open>v == 0\<close> for every decision variable of that faculty in a slot outside the list,
  and no assignment of a result with status ok (from a backend that honours its contract)
  puts that faculty in such a slot.
\<close>

theorem faculty_availability_respected:
  assumes model: "model_of inp = Inr (assign, m)"
    and fac: "faculty_list inp = Some facs" "fac \<in> set facs"
    and avail: "get_or (available_slots fac) [] \<noteq> []"
    and contract: "backend_contract solve m"
    and result: "generate_schedule_from_inputs solve inp = Inr (StatusOk n as)"
  shows "(\<forall>((s, b, sl, r, f), var) \<in> set assign.
            f = fac_id fac \<and> sl \<notin> set (get_or (available_slots fac) [])
              \<longrightarrow> EqZero var \<in> set (constraints m))
       \<and> (\<forall>a \<in> set as. faculty_id a = fac_id fac
              \<longrightarrow> slot a \<in> set (get_or (available_slots fac) []))"
proof -
  from model_of_parts [OF model] fac(1) obtain rooms subs bats slots
    where build: "build_model facs rooms subs bats slots (get_or (fixed_assignments inp) []) = Inr (assign, m)"
    by auto
  note inv = build_model_assign [OF build]
  have forced: "EqZero var \<in> set (constraints m)"
    if kv: "((s, b, sl, r, f), var) \<in> set assign" and f: "f = fac_id fac"
      and out: "sl \<notin> set (get_or (available_slots fac) [])" for s b sl r f var
  proof -
    from kv inv(3) have "(s, b, sl, r, f) \<in> set (candidate_keys facs rooms subs bats slots)"
      by force
    then obtain sub bt rm where mem: "sub \<in> set subs" "bt \<in> set bats" "sl \<in> set slots"
        "rm \<in> set rooms" and ids: "s = sub_id sub" "b = batch_id_of bt" "r = room_id_of rm"
      unfolding candidate_keys_iff by auto
    have "map_of assign (sub_id sub, batch_id_of bt, sl, room_id_of rm, fac_id fac) = Some var"
      using map_of_assign [OF inv(1) kv] by (simp add: ids f)
    from faculty_availability_mem [OF fac(2) mem avail out this]
    show ?thesis by (intro hard_constraints_mem [OF build]) (simp add: hard_constraints_def)
  qed
  obtain status sol where sv: "solve m = (status, sol)" by (cases "solve m")
  from result have mat: "materialize assign (status, sol) = StatusOk n as"
    by (simp add: generate_schedule_from_inputs_def model sv)
  note ok = materialize_ok [OF mat]
  have feas: "feasible m sol" using contract_ok [OF contract sv ok(1)] .
  have inside: "slot a \<in> set (get_or (available_slots fac) [])"
    if a: "a \<in> set as" and fa: "faculty_id a = fac_id fac" for a
  proof (rule ccontr)
    assume out: "slot a \<notin> set (get_or (available_slots fac) [])"
    from a obtain k v where kv: "(k, v) \<in> set assign" "sol ! v = 1" "a = to_assignment k"
      unfolding ok(2) chosen_iff by blast
    obtain s b sl r f where k: "k = (s, b, sl, r, f)" by (cases k)
    from fa out kv(3) have "f = fac_id fac" "sl \<notin> set (get_or (available_slots fac) [])"
      by (simp_all add: k to_assignment_fields)
    from forced [OF _ this] kv(1) have "EqZero v \<in> set (constraints m)" by (simp add: k)
    from feasible_holds [OF feas this] kv(2) show False by simp
  qed
  from forced inside show ?thesis by blast
qed

theorem faculty_availability_respected_witness:
  "model_of picky_example = Inr (two_slot_assign, picky_model)
   \<and> faculty_list picky_example = Some [picky_faculty]
   \<and> get_or (available_slots picky_faculty) [] = [PStr ''s2'']
   \<and> backend_contract exhaustive_backend picky_model
   \<and> generate_schedule_from_inputs exhaustive_backend picky_example
       = Inr (StatusOk 1 [ex_assignment ''s2''])
   \<and> EqZero 0 \<in> set (constraints picky_model)
   \<and> slot (ex_assignment ''s2'') \<in> set (get_or (available_slots picky_faculty) [])"
proof -
  have fl: "faculty_list picky_example = Some [picky_faculty]"
    by (simp add: picky_example_def)
  have av: "get_or (available_slots picky_faculty) [] = [PStr ''s2'']"
    by (simp add: picky_faculty_def get_or_def)
  have ne: "get_or (available_slots picky_faculty) [] \<noteq> []" by (simp add: av)
  have fid: "fac_id picky_faculty = PInt 1"
    by (simp add: picky_faculty_def ex_faculty_def fac_id_def get_or_def)
  show ?thesis
    using faculty_availability_respected [OF picky_example_model fl _ ne
        exhaustive_backend_contract picky_example_result]
      picky_example_model fl av exhaustive_backend_contract picky_example_result
    by (simp add: two_slot_assign_def fid ex_assignment_def)
qed

section \<open>The objective\<close>

lemma find_first_exists:
  "x \<in> set xs \<Longrightarrow> P x \<Longrightarrow> \<exists>y. find P xs = Some y \<and> y \<in> set xs \<and> P y"
  by (induction xs) auto

lemma coeff_of_spec:
  assumes "find (\<lambda>x. fac_id x = f) facs = Some fac"
    and "find (\<lambda>x. room_id_of x = r) rooms = Some rm"
    and "find (\<lambda>x. batch_id_of x = b) bats = Some bt"
  shows "coeff_of facs rooms bats (s, b, sl, r, f) = spec_coeff fac rm bt sl"
  using assms by (simp add: coeff_of_def spec_coeff_def Let_def)

lemma coeff_of_range: "coeff_of facs rooms bats k = 1 \<or> coeff_of facs rooms bats k = 2
                       \<or> coeff_of facs rooms bats k = 3"
  by (cases k) (auto simp add: coeff_of_def Let_def split: option.splits)

lemma objective_terms_vars: "map fst (objective_terms assign facs rooms bats) = map snd assign"
  by (induction assign) (auto simp add: objective_terms_def)

text \<open>
  C8. The objective has exactly one term for each decision variable of \<open>assign\<close>. The
  coefficient of the variable of a tuple is the specification's: 1, plus 1 if the slot is
  among the preferred slots of the tuple's faculty, plus 1 if the affinity tags of the
  tuple's room contain the branch id or the track code of the tuple's batch, where the
  faculty, room and batch of a tuple are the first entries of their lists with the tuple's
  ids (they exist). So every coefficient is 1, 2 or 3.
\<close>

theorem objective_coefficients:
  assumes model: "model_of inp = Inr (assign, m)"
  shows "map fst (objective m) = map snd assign
       \<and> distinct (map fst (objective m))
       \<and> (\<forall>((s, b, sl, r, f), var) \<in> set assign.
            \<exists>fac rm bt.
               find (\<lambda>x. fac_id x = f) (get_or (faculty_list inp) []) = Some fac
             \<and> find (\<lambda>x. room_id_of x = r) (get_or (room_list inp) []) = Some rm
             \<and> find (\<lambda>x. batch_id_of x = b) (get_or (batch_list inp) []) = Some bt
             \<and> (var, spec_coeff fac rm bt sl) \<in> set (objective m))
       \<and> (\<forall>(var, c) \<in> set (objective m). c = 1 \<or> c = 2 \<or> c = 3)"
proof -
  from model_of_parts [OF model] obtain facs rooms subs bats slots
    where lists: "faculty_list inp = Some facs" "room_list inp = Some rooms"
        "batch_list inp = Some bats"
      and build: "build_model facs rooms subs bats slots (get_or (fixed_assignments inp) []) = Inr (assign, m)"
    by blast
  note inv = build_model_assign [OF build]
  have obj: "objective m = objective_terms assign facs rooms bats"
    using build_model_parts(4) [OF build] .
  have vars: "map fst (objective m) = map snd assign"
    unfolding obj by (rule objective_terms_vars)
  have dist: "distinct (map fst (objective m))"
    unfolding vars by (rule inv(2))
  have coeff: "\<exists>fac rm bt.
               find (\<lambda>x. fac_id x = f) (get_or (faculty_list inp) []) = Some fac
             \<and> find (\<lambda>x. room_id_of x = r) (get_or (room_list inp) []) = Some rm
             \<and> find (\<lambda>x. batch_id_of x = b) (get_or (batch_list inp) []) = Some bt
             \<and> (var, spec_coeff fac rm bt sl) \<in> set (objective m)"
    if kv: "((s, b, sl, r, f), var) \<in> set assign" for s b sl r f var
  proof -
    from kv inv(3) have "(s, b, sl, r, f) \<in> set (candidate_keys facs rooms subs bats slots)"
      by force
    then obtain bt0 rm0 fac0 where mem: "bt0 \<in> set bats" "rm0 \<in> set rooms" "fac0 \<in> set facs"
      and ids: "batch_id_of bt0 = b" "room_id_of rm0 = r" "fac_id fac0 = f"
      unfolding candidate_keys_iff by auto
    from find_first_exists [of fac0 facs "\<lambda>x. fac_id x = f"] mem(3) ids(3)
    obtain fac where fac: "find (\<lambda>x. fac_id x = f) facs = Some fac" by blast
    from find_first_exists [of rm0 rooms "\<lambda>x. room_id_of x = r"] mem(2) ids(2)
    obtain rm where rm: "find (\<lambda>x. room_id_of x = r) rooms = Some rm" by blast
    from find_first_exists [of bt0 bats "\<lambda>x. batch_id_of x = b"] mem(1) ids(1)
    obtain bt where bt: "find (\<lambda>x. batch_id_of x = b) bats = Some bt" by blast
    have "(var, coeff_of facs rooms bats (s, b, sl, r, f)) \<in> set (objective m)"
      unfolding obj objective_terms_def using kv by force
    then have "(var, spec_coeff fac rm bt sl) \<in> set (objective m)"
      by (simp add: coeff_of_spec [OF fac rm bt])
    with fac rm bt show ?thesis by (simp add: lists get_or_def)
  qed
  have range: "c = 1 \<or> c = 2 \<or> c = 3" if "(var, c) \<in> set (objective m)" for var c
  proof -
    from that obtain k where "c = coeff_of facs rooms bats k"
      unfolding obj objective_terms_def by auto
    then show ?thesis using coeff_of_range [of facs rooms bats k] by simp
  qed
  from vars dist coeff range show ?thesis by blast
qed

theorem objective_coefficients_witness:
  "model_of picky_example = Inr (two_slot_assign, picky_model)
   \<and> map fst (objective picky_model) = map snd two_slot_assign
   \<and> objective picky_model = [(0, 2), (1, 3)]
   \<and> spec_coeff picky_faculty tagged_room (ex_batch 40) (PStr ''s1'') = 2
   \<and> spec_coeff picky_faculty tagged_room (ex_batch 40) (PStr ''s2'') = 3"
proof -
  have s1: "spec_coeff picky_faculty tagged_room (ex_batch 40) (PStr ''s1'') = 2"
    by (simp add: spec_coeff_def picky_faculty_def tagged_room_def ex_batch_def get_or_def)
  have s2: "spec_coeff picky_faculty tagged_room (ex_batch 40) (PStr ''s2'') = 3"
    by (simp add: spec_coeff_def picky_faculty_def tagged_room_def ex_batch_def get_or_def)
  have obj: "objective picky_model = [(0, 2), (1, 3)]" by (simp add: picky_model_def)
  from objective_coefficients [OF picky_example_model]
  have "map fst (objective picky_model) = map snd two_slot_assign" by blast
  with picky_example_model s1 s2 obj show ?thesis by simp
qed

section \<open>The entity indices and the fixed assignments\<close>

lemma index_into_error:
  "\<exists>x \<in> set items. key_field x = None \<Longrightarrow> index_into key_field items d = Inl KeyError"
  by (induction items arbitrary: d) (auto split: option.splits)

lemma index_into_ok:
  "\<forall>x \<in> set items. key_field x \<noteq> None \<Longrightarrow> \<exists>d'. index_into key_field items d = Inr d'"
  by (induction items arbitrary: d) (auto split: option.splits)

lemma index_if_given_error:
  "lacks_id key_field xs \<Longrightarrow> index_if_given key_field xs = Inl KeyError"
  by (cases xs)
    (auto simp add: lacks_id_def get_or_def index_if_given_def index_objects_def list_ex_iff
      intro: index_into_error)

lemma index_if_given_ok:
  "\<not> lacks_id key_field xs \<Longrightarrow> \<exists>d. index_if_given key_field xs = Inr d"
  by (cases xs)
    (auto simp add: lacks_id_def get_or_def index_if_given_def index_objects_def list_ex_iff
      intro: index_into_ok)

lemma slot_ids_error: "\<exists>ts \<in> set l. tid ts = None \<Longrightarrow> slot_ids l = Inl KeyError"
proof (induction l)
  case Nil
  then show ?case by simp
next
  case (Cons ts l)
  show ?case
  proof (cases "tid ts")
    case None
    then show ?thesis by simp
  next
    case (Some s)
    with Cons.prems have "\<exists>ts \<in> set l. tid ts = None" by auto
    from Cons.IH [OF this] Some show ?thesis by simp
  qed
qed

lemma slot_ids_ok: "\<forall>ts \<in> set l. tid ts \<noteq> None \<Longrightarrow> slot_ids l = Inr (map (\<lambda>ts. the (tid ts)) l)"
  by (induction l) auto

lemma timeslot_ids_of_error: "lacks_id tid tsl \<Longrightarrow> timeslot_ids_of tsl = Inl KeyError"
  by (cases tsl)
    (auto simp add: lacks_id_def get_or_def timeslot_ids_of_def list_ex_iff slot_ids_error)

lemma timeslot_ids_of_ok: "\<not> lacks_id tid tsl \<Longrightarrow> \<exists>ids. timeslot_ids_of tsl = Inr ids"
  by (cases tsl)
    (auto simp add: lacks_id_def get_or_def timeslot_ids_of_def list_ex_iff slot_ids_ok)

lemma entity_catalog_error: "some_id_missing inp \<Longrightarrow> entity_catalog inp = Inl KeyError"
proof -
  assume missing: "some_id_missing inp"
  show ?thesis
  proof (cases "lacks_id fid (faculty_list inp)")
    case True
    then show ?thesis by (simp add: entity_catalog_def index_if_given_error)
  next
    case f: False
    from index_if_given_ok [OF f] obtain d1 where d1: "index_if_given fid (faculty_list inp) = Inr d1" ..
    show ?thesis
    proof (cases "lacks_id rid (room_list inp)")
      case True
      then show ?thesis by (simp add: entity_catalog_def d1 index_if_given_error)
    next
      case r: False
      from index_if_given_ok [OF r] obtain d2 where d2: "index_if_given rid (room_list inp) = Inr d2" ..
      show ?thesis
      proof (cases "lacks_id sid (subject_list inp)")
        case True
        then show ?thesis by (simp add: entity_catalog_def d1 d2 index_if_given_error)
      next
        case s: False
        from index_if_given_ok [OF s] obtain d3 where d3: "index_if_given sid (subject_list inp) = Inr d3" ..
        show ?thesis
        proof (cases "lacks_id bid (batch_list inp)")
          case True
          then show ?thesis by (simp add: entity_catalog_def d1 d2 d3 index_if_given_error)
        next
          case b: False
          from index_if_given_ok [OF b] obtain d4 where d4: "index_if_given bid (batch_list inp) = Inr d4" ..
          from missing f r s b have "lacks_id tid (timeslot_list inp)"
            by (simp add: some_id_missing_def)
          then show ?thesis
            by (simp add: entity_catalog_def d1 d2 d3 d4 timeslot_ids_of_error)
        qed
      qed
    qed
  qed
qed

lemma entity_catalog_ok:
  assumes "\<not> some_id_missing inp"
  shows "entity_catalog inp = timeslot_ids_of (timeslot_list inp)"
    and "\<exists>ids. entity_catalog inp = Inr ids"
proof -
  from assms have no: "\<not> lacks_id fid (faculty_list inp)" "\<not> lacks_id rid (room_list inp)"
      "\<not> lacks_id sid (subject_list inp)" "\<not> lacks_id bid (batch_list inp)"
      "\<not> lacks_id tid (timeslot_list inp)"
    by (simp_all add: some_id_missing_def)
  from index_if_given_ok [OF no(1)] obtain d1 where d1: "index_if_given fid (faculty_list inp) = Inr d1" ..
  from index_if_given_ok [OF no(2)] obtain d2 where d2: "index_if_given rid (room_list inp) = Inr d2" ..
  from index_if_given_ok [OF no(3)] obtain d3 where d3: "index_if_given sid (subject_list inp) = Inr d3" ..
  from index_if_given_ok [OF no(4)] obtain d4 where d4: "index_if_given bid (batch_list inp) = Inr d4" ..
  show eq: "entity_catalog inp = timeslot_ids_of (timeslot_list inp)"
    by (simp add: entity_catalog_def d1 d2 d3 d4)
  from timeslot_ids_of_ok [OF no(5)] show "\<exists>ids. entity_catalog inp = Inr ids"
    by (simp add: eq)
qed




section \<open>Fixed assignments without a decision variable\<close>

lemma fixed_constraints_skip:
  assumes "fixed_key fix = Inr k" "map_of assign k = None"
  shows "fixed_constraints assign (before @ fix # after) = fixed_constraints assign (before @ after)"
  using assms by (induction before) (auto split: sum.splits)

lemma build_model_skip:
  assumes "fixed_key fix = Inr k"
    and "build_model facs rooms subs bats slots (before @ after) = Inr (assign, m)"
    and "map_of assign k = None"
  shows "build_model facs rooms subs bats slots (before @ fix # after) = Inr (assign, m)"
proof -
  obtain a n where cv: "create_vars (candidate_keys facs rooms subs bats slots) [] 0 = (a, n)"
    by (cases "create_vars (candidate_keys facs rooms subs bats slots) [] 0")
  from assms(2) have a: "a = assign"
    by (auto simp add: build_model_def cv split: sum.splits)
  from fixed_constraints_skip [OF assms(1) assms(3), of before after]
  have "fixed_constraints a (before @ fix # after) = fixed_constraints a (before @ after)"
    by (simp add: a)
  with assms(2) show ?thesis by (simp add: build_model_def cv)
qed

lemma entity_catalog_fixed [simp]:
  "entity_catalog (inp\<lparr> fixed_assignments := fx \<rparr>) = entity_catalog inp"
  by (simp add: entity_catalog_def cong: sum.case_cong)

text \<open>
  C4, as stated, fails: the fixed assignment of \<open>dangling_fixed_example\<close> names room 99,
  its tuple has no decision variable, and the call returns the schedule of scenario 1,
  built from a model without any constraint for the entry.
\<close>

theorem dangling_fixed_assignment_accepted:
  "fixed_assignments dangling_fixed_example = Some [dangling_fix]
   \<and> fixed_key dangling_fix = Inr (PInt 1, PInt 1, PStr ''s1'', PInt 99, PInt 1)
   \<and> model_of dangling_fixed_example = Inr (two_slot_assign, lecture_model)
   \<and> map_of two_slot_assign (PInt 1, PInt 1, PStr ''s1'', PInt 99, PInt 1) = None
   \<and> generate_schedule_from_inputs exhaustive_backend dangling_fixed_example
       = Inr (StatusOk 2 [ex_assignment ''s1'', ex_assignment ''s2''])"
  by code_simp

text \<open>
  C4, amended. A fixed assignment that carries all five keys and whose tuple has no
  decision variable is skipped: the call builds exactly the model it builds without the
  entry and returns the result of that model; it does not fail on account of the entry.
\<close>

theorem dangling_fixed_assignment_skipped:
  assumes "fixed_assignments inp = Some (before @ fix # after)"
    and "fixed_key fix = Inr k"
    and "model_of (inp\<lparr> fixed_assignments := Some (before @ after) \<rparr>) = Inr (assign, m)"
    and "map_of assign k = None"
  shows "model_of inp = Inr (assign, m)
         \<and> generate_schedule_from_inputs solve inp = Inr (materialize assign (solve m))"
proof -
  from model_of_parts [OF assms(3)] obtain facs rooms subs bats slots where
    lists: "faculty_list inp = Some facs" "room_list inp = Some rooms"
      "subject_list inp = Some subs" "batch_list inp = Some bats"
    and cat: "entity_catalog inp = Inr slots"
    and bm: "build_model facs rooms subs bats slots (before @ after) = Inr (assign, m)"
    by (auto simp add: get_or_def)
  from build_model_skip [OF assms(2) bm assms(4)]
  have "build_model facs rooms subs bats slots (before @ fix # after) = Inr (assign, m)" .
  then have "model_of inp = Inr (assign, m)"
    by (simp add: model_of_def cat lists assms(1) get_or_def)
  then show ?thesis by (simp add: generate_schedule_from_inputs_def)
qed

theorem dangling_fixed_assignment_skipped_witness:
  "fixed_assignments dangling_fixed_example = Some ([] @ dangling_fix # [])
   \<and> fixed_key dangling_fix = Inr (PInt 1, PInt 1, PStr ''s1'', PInt 99, PInt 1)
   \<and> model_of (dangling_fixed_example\<lparr> fixed_assignments := Some ([] @ []) \<rparr>)
       = Inr (two_slot_assign, lecture_model)
   \<and> map_of two_slot_assign (PInt 1, PInt 1, PStr ''s1'', PInt 99, PInt 1) = None
   \<and> model_of dangling_fixed_example = Inr (two_slot_assign, lecture_model)
   \<and> generate_schedule_from_inputs exhaustive_backend dangling_fixed_example
       = Inr (materialize two_slot_assign (exhaustive_backend lecture_model))"
proof -
  have fx: "fixed_assignments dangling_fixed_example = Some ([] @ dangling_fix # [])"
    by (simp add: dangling_fixed_example_def)
  have k: "fixed_key dangling_fix = Inr (PInt 1, PInt 1, PStr ''s1'', PInt 99, PInt 1)"
    by code_simp
  have without: "model_of (dangling_fixed_example\<lparr> fixed_assignments := Some ([] @ []) \<rparr>)
       = Inr (two_slot_assign, lecture_model)"
    by code_simp
  have novar: "map_of two_slot_assign (PInt 1, PInt 1, PStr ''s1'', PInt 99, PInt 1) = None"
    by code_simp
  from dangling_fixed_assignment_skipped [OF fx k without novar, of exhaustive_backend]
    fx k without novar
  show ?thesis by simp
qed

section \<open>The fallback timeslots\<close>













section \<open>The faculty fields that are read and not used\<close>

lemma without_days_and_consec_fields [simp]:
  "fid (without_days_and_consec fac) = fid fac"
  "available_slots (without_days_and_consec fac) = available_slots fac"
  "preferred_slots (without_days_and_consec fac) = preferred_slots fac"
  "fac_id (without_days_and_consec fac) = fac_id fac"
  by (simp_all add: without_days_and_consec_def fac_id_def)

lemma candidate_keys_without:
  "candidate_keys (map without_days_and_consec facs) rooms subs bats slots
     = candidate_keys facs rooms subs bats slots"
  by (simp add: candidate_keys_def o_def)

lemma batch_exclusivity_without:
  "batch_exclusivity assign (map without_days_and_consec facs) rooms subs bats slots
     = batch_exclusivity assign facs rooms subs bats slots"
  by (simp add: batch_exclusivity_def o_def)

lemma faculty_exclusivity_without:
  "faculty_exclusivity assign (map without_days_and_consec facs) rooms subs bats slots
     = faculty_exclusivity assign facs rooms subs bats slots"
  by (simp add: faculty_exclusivity_def o_def)

lemma room_exclusivity_without:
  "room_exclusivity assign (map without_days_and_consec facs) rooms subs bats slots
     = room_exclusivity assign facs rooms subs bats slots"
  by (simp add: room_exclusivity_def o_def)

lemma faculty_availability_without:
  "faculty_availability assign (map without_days_and_consec facs) rooms subs bats slots
     = faculty_availability assign facs rooms subs bats slots"
  by (simp add: faculty_availability_def o_def Let_def cong: if_cong)

lemma room_capacity_without:
  "room_capacity assign (map without_days_and_consec facs) rooms subs bats slots
     = room_capacity assign facs rooms subs bats slots"
  by (simp add: room_capacity_def o_def cong: if_cong)

lemma continuity_at_without:
  "continuity_at assign (map without_days_and_consec facs) rooms slots sub b start_slot
     = continuity_at assign facs rooms slots sub b start_slot"
  by (simp add: continuity_at_def o_def cong: option.case_cong)

lemma lab_continuity_without:
  "lab_continuity assign (map without_days_and_consec facs) rooms subs bats slots
     = lab_continuity assign facs rooms subs bats slots"
  by (simp add: lab_continuity_def continuity_at_without cong: if_cong)

lemma hard_constraints_without:
  "hard_constraints assign (map without_days_and_consec facs) rooms subs bats slots
     = hard_constraints assign facs rooms subs bats slots"
  by (simp only: hard_constraints_def batch_exclusivity_without faculty_exclusivity_without
      room_exclusivity_without faculty_availability_without room_capacity_without
      lab_continuity_without)

lemma find_through_map: "find P (map f xs) = map_option f (find (P \<circ> f) xs)"
  by (induction xs) simp_all

lemma coeff_of_without:
  "coeff_of (map without_days_and_consec facs) rooms bats k = coeff_of facs rooms bats k"
  by (simp add: coeff_of_def find_through_map o_def split: prod.splits cong: option.case_cong)

lemma objective_terms_without:
  "objective_terms assign (map without_days_and_consec facs) rooms bats
     = objective_terms assign facs rooms bats"
  by (simp add: objective_terms_def coeff_of_without)

lemma build_model_without:
  "build_model (map without_days_and_consec facs) rooms subs bats slots fixed
     = build_model facs rooms subs bats slots fixed"
  by (simp only: build_model_def candidate_keys_without hard_constraints_without
      objective_terms_without)

lemma lacks_id_without:
  "lacks_id fid (map_option (map without_days_and_consec) fl) = lacks_id fid fl"
  by (cases fl) (simp_all add: lacks_id_def get_or_def list_ex_iff)

lemma entity_catalog_cases:
  "entity_catalog inp
     = (if some_id_missing inp then Inl KeyError else timeslot_ids_of (timeslot_list inp))"
  using entity_catalog_error [of inp] entity_catalog_ok(1) [of inp] by simp

lemma model_of_without:
  "model_of (inp\<lparr> faculty_list := map_option (map without_days_and_consec) (faculty_list inp) \<rparr>)
     = model_of inp"
proof -
  let ?inp = "inp\<lparr> faculty_list := map_option (map without_days_and_consec) (faculty_list inp) \<rparr>"
  have "some_id_missing ?inp = some_id_missing inp"
    by (simp add: some_id_missing_def lacks_id_without)
  then have cat: "entity_catalog ?inp = entity_catalog inp"
    by (simp add: entity_catalog_cases)
  show ?thesis
    unfolding model_of_def cat
    by (cases "faculty_list inp")
      (auto simp add: build_model_without split: sum.splits option.splits)
qed

text \<open>
  C10. Two inputs that differ only in the faculty fields \<^verbatim>\<open>available_days\<close> and
  \<^verbatim>\<open>no_consecutive_slots\<close> give the same outcome of the model construction (the same
  variables, constraints and objective, or the same error), and the same result of the call
  for every backend.
\<close>

theorem days_and_consec_ignored:
  assumes "differ_only_in_days_and_consec inp inp'"
  shows "model_of inp = model_of inp'
       \<and> generate_schedule_from_inputs solve inp = generate_schedule_from_inputs solve inp'"
proof -
  let ?n = "\<lambda>i. i\<lparr> faculty_list := map_option (map without_days_and_consec) (faculty_list i) \<rparr>"
  from assms have "?n inp = ?n inp'"
    by (intro inputs.equality) (simp_all add: differ_only_in_days_and_consec_def)
  then have "model_of (?n inp) = model_of (?n inp')" by simp
  then have same: "model_of inp = model_of inp'" by (simp only: model_of_without)
  then show ?thesis by (simp add: generate_schedule_from_inputs_def)
qed

theorem days_and_consec_ignored_witness:
  "differ_only_in_days_and_consec picky_example
     (picky_example\<lparr> faculty_list :=
        Some [picky_faculty\<lparr> available_days := Some [PStr ''Tue''], no_consecutive_slots := None \<rparr>] \<rparr>)
   \<and> available_days picky_faculty = Some [PStr ''Mon'']
   \<and> no_consecutive_slots picky_faculty = Some True
   \<and> model_of (picky_example\<lparr> faculty_list :=
        Some [picky_faculty\<lparr> available_days := Some [PStr ''Tue''], no_consecutive_slots := None \<rparr>] \<rparr>)
       = Inr (two_slot_assign, picky_model)
   \<and> generate_schedule_from_inputs exhaustive_backend (picky_example\<lparr> faculty_list :=
        Some [picky_faculty\<lparr> available_days := Some [PStr ''Tue''], no_consecutive_slots := None \<rparr>] \<rparr>)
       = Inr (StatusOk 1 [ex_assignment ''s2''])"
proof -
  let ?other = "picky_example\<lparr> faculty_list :=
        Some [picky_faculty\<lparr> available_days := Some [PStr ''Tue''], no_consecutive_slots := None \<rparr>] \<rparr>"
  have d: "differ_only_in_days_and_consec picky_example ?other"
    by (simp add: differ_only_in_days_and_consec_def picky_example_def without_days_and_consec_def)
  have f: "available_days picky_faculty = Some [PStr ''Mon'']"
      "no_consecutive_slots picky_faculty = Some True"
    by (simp_all add: picky_faculty_def)
  from days_and_consec_ignored [OF d, of exhaustive_backend] d f
    picky_example_model picky_example_result
  show ?thesis by simp
qed

end
